theory Spec2Isabelle
  imports Main
begin

section \<open>Python strings\<close>

text \<open>
  A Python \<open>str\<close> is a sequence of Unicode code points; \<open>s[0]\<close>, \<open>s[-1]\<close> and
  \<open>len(s)\<close> count code points. Four of the seven delimiter pairs of
  \<open>_QUOTE_PAIRS\<close> lie outside ASCII, so a string is modelled as the list of its code
  points and not as a list of bytes.
\<close>

type_synonym ustr = "nat list"

definition ascii :: "string \<Rightarrow> ustr" where
  "ascii s = map of_char s"

text \<open>
  \<open>str.strip()\<close> without argument removes the characters for which CPython's
  \<open>Py_UNICODE_ISSPACE\<close> holds, from both ends.
\<close>

definition isspace :: "nat \<Rightarrow> bool" where
  "isspace c =
     ((9 \<le> c \<and> c \<le> 13) \<or> (28 \<le> c \<and> c \<le> 32) \<or> c = 133 \<or> c = 160 \<or> c = 5760 \<or>
      (8192 \<le> c \<and> c \<le> 8202) \<or> c = 8232 \<or> c = 8233 \<or> c = 8239 \<or> c = 8287 \<or> c = 12288)"

definition lstrip :: "ustr \<Rightarrow> ustr" where
  "lstrip s = dropWhile isspace s"

definition rstrip :: "ustr \<Rightarrow> ustr" where
  "rstrip s = rev (dropWhile isspace (rev s))"

definition strip :: "ustr \<Rightarrow> ustr" where
  "strip s = rstrip (lstrip s)"

section \<open>normalize\_wrapping\_quotes.py\<close>

text \<open>
  \<open>_QUOTE_PAIRS\<close>, opening to closing mark: the straight double and single quote, the
  backtick, the curly double (U+201C, U+201D) and single (U+2018, U+2019) quotes, the
  guillemets (U+00AB, U+00BB) and the angle quotes (U+2039, U+203A).
\<close>

definition QUOTE_PAIRS :: "(nat \<times> nat) list" where
  "QUOTE_PAIRS =
     [(34, 34), (39, 39), (96, 96), (8220, 8221), (8216, 8217), (171, 187), (8249, 8250)]"

text \<open>
  The test of the loop body, lines 17 to 19: the string has at least two characters, its
  first character opens a pair and its last character is that pair's closing mark.
\<close>

definition has_wrapping_pair :: "ustr \<Rightarrow> bool" where
  "has_wrapping_pair s =
     (2 \<le> length s \<and>
      (case map_of QUOTE_PAIRS (hd s) of
         None \<Rightarrow> False
       | Some closer \<Rightarrow> last s = closer))"

lemma length_strip_le: "length (strip s) \<le> length s"
proof -
  have "length (rstrip (lstrip s)) \<le> length (lstrip s)"
    unfolding rstrip_def using length_dropWhile_le [of isspace "rev (lstrip s)"] by simp
  moreover have "length (lstrip s) \<le> length s"
    unfolding lstrip_def by (rule length_dropWhile_le)
  ultimately show ?thesis unfolding strip_def by simp
qed

text \<open>The \<open>while\<close> loop of lines 16 to 22; \<open>s[1:-1]\<close> is \<open>butlast (tl s)\<close>.\<close>

function unwrap_loop :: "ustr \<Rightarrow> ustr" where
  "unwrap_loop s =
     (if has_wrapping_pair s then unwrap_loop (strip (butlast (tl s))) else s)"
  by pat_completeness auto
termination
proof (relation "measure length")
  show "wf (measure length)" by simp
next
  fix s :: ustr
  assume "has_wrapping_pair s"
  then have "2 \<le> length s" by (simp add: has_wrapping_pair_def)
  moreover have "length (strip (butlast (tl s))) \<le> length (butlast (tl s))"
    by (rule length_strip_le)
  ultimately show "(strip (butlast (tl s)), s) \<in> measure length" by simp
qed

definition normalize_wrapping_quotes :: "ustr \<Rightarrow> ustr" where
  "normalize_wrapping_quotes s = unwrap_loop (strip s)"

section \<open>Python values, errors and the runtime\<close>

text \<open>
  A \<open>datetime\<close> is its wall-clock time in microseconds since 0001-01-01T00:00:00, naive
  or aware (with its UTC offset in microseconds). Python's \<open>datetime\<close> ranges over the
  years 1 to 9999; \<open>MAX_US\<close> is \<open>datetime.max\<close>.
\<close>

datatype datetime = Naive int | Aware int int

definition MAX_US :: int where
  "MAX_US = 3652059 * 86400000000 - 1"

text \<open>
  The values the functions receive (their parameters are typed \<open>Any\<close> or unions) and the
  values \<open>json.loads\<close> builds. A \<open>dict\<close> keeps its insertion order and is an association
  list with string keys; \<open>PFloat\<close> carries the float's literal.
\<close>

datatype pyval =
    PNone
  | PBool bool
  | PInt int
  | PFloat ustr
  | PStr ustr
  | PList "pyval list"
  | PDict "(ustr \<times> pyval) list"
  | PDatetime datetime

datatype error = ValueError | OverflowError | RecursionError | DecoderError

text \<open>
  What the code takes from outside this repository: the two ceilings of
  \<open>eventwhisper.utils.config\<close> (a module that is not part of the sources at hand), the
  clock, the interpreter's bound on nested calls, and the functions of the standard library
  it calls. A library function that raises is \<open>None\<close> here.
  \<^item> \<open>str_lower\<close>, \<open>str_upper\<close>, \<open>str_isdigit\<close>: \<open>str.lower\<close>, \<open>str.upper\<close>, \<open>str.isdigit\<close>;
  \<^item> \<open>int_of_str\<close>: \<open>int(s)\<close> and \<open>int(s, 10)\<close> on a string (\<open>None\<close>: \<open>ValueError\<close>);
  \<^item> \<open>str_of\<close>: \<open>str(v)\<close> for a value that is not a string;
  \<^item> \<open>json_loads\<close>: \<open>json.loads\<close>;
  \<^item> \<open>fromisoformat\<close>: \<open>datetime.fromisoformat\<close>; \<open>strptime\<close>: \<open>datetime.strptime\<close>, string
    first, format second.
\<close>

record pyenv =
  RESULTS_LIMIT :: int
  SCAN_LIMIT :: int
  utc_now :: int
  recursion_limit :: nat
  str_lower :: "ustr \<Rightarrow> ustr"
  str_upper :: "ustr \<Rightarrow> ustr"
  str_isdigit :: "ustr \<Rightarrow> bool"
  int_of_str :: "ustr \<Rightarrow> int option"
  str_of :: "pyval \<Rightarrow> ustr"
  json_loads :: "ustr \<Rightarrow> pyval option"
  fromisoformat :: "ustr \<Rightarrow> datetime option"
  strptime :: "ustr \<Rightarrow> ustr \<Rightarrow> datetime option"

definition py_str :: "pyenv \<Rightarrow> pyval \<Rightarrow> ustr" where
  "py_str E v = (case v of PStr s \<Rightarrow> s | _ \<Rightarrow> str_of E v)"

text \<open>\<open>d.get(k)\<close> on a dictionary: the value, or \<open>None\<close> for a missing key.\<close>

definition dict_get :: "(ustr \<times> pyval) list \<Rightarrow> ustr \<Rightarrow> pyval" where
  "dict_get d k = (case map_of d k of None \<Rightarrow> PNone | Some v \<Rightarrow> v)"

text \<open>\<open>d[k] = v\<close>: a present key keeps its place, a new key goes last.\<close>

definition dict_set :: "(ustr \<times> pyval) list \<Rightarrow> ustr \<Rightarrow> pyval \<Rightarrow> (ustr \<times> pyval) list" where
  "dict_set d k v =
     (if map_of d k = None then d @ [(k, v)]
      else map (\<lambda>(k', v'). if k' = k then (k', v) else (k', v')) d)"

text \<open>
  \<open>s.split(c)\<close> for a one-character separator: the result is never empty, and the empty
  string splits into one empty piece.
\<close>

fun split_on :: "nat \<Rightarrow> ustr \<Rightarrow> ustr list" where
  "split_on c [] = [[]]"
| "split_on c (x # xs) =
     (if x = c then [] # split_on c xs
      else (case split_on c xs of
              [] \<Rightarrow> [[x]]
            | p # ps \<Rightarrow> (x # p) # ps))"

definition startswith :: "ustr \<Rightarrow> ustr \<Rightarrow> bool" where
  "startswith s p = (take (length p) s = p)"

definition endswith :: "ustr \<Rightarrow> ustr \<Rightarrow> bool" where
  "endswith s p = (length p \<le> length s \<and> drop (length s - length p) s = p)"

text \<open>\<open>k in s\<close> on strings: \<open>k\<close> occurs in \<open>s\<close> as a contiguous run.\<close>

fun str_contains :: "ustr \<Rightarrow> ustr \<Rightarrow> bool" where
  "str_contains [] k = (k = [])"
| "str_contains (x # xs) k = (startswith (x # xs) k \<or> str_contains xs k)"

section \<open>normalize\_value.py\<close>

text \<open>
  \<open>normalize_int\<close>, lines 8 to 30. \<open>bool\<close> is a subclass of \<open>int\<close>, so
  \<open>isinstance(value, int)\<close> holds of \<open>True\<close> and \<open>False\<close>, and \<open>True > 0\<close>: the function
  returns \<open>True\<close>, which is the integer 1 in every later use (\<open>min\<close>, \<open>>=\<close>).
\<close>

definition normalize_int :: "pyenv \<Rightarrow> pyval \<Rightarrow> int \<Rightarrow> int option" where
  "normalize_int E v dflt =
     (case v of
        PNone \<Rightarrow> Some dflt
      | PBool b \<Rightarrow> (if b then Some 1 else None)
      | PInt i \<Rightarrow> (if 0 < i then Some i else None)
      | PStr s \<Rightarrow>
          (case int_of_str E (strip (normalize_wrapping_quotes s)) of
             None \<Rightarrow> None
           | Some i \<Rightarrow> (if 0 < i then Some i else None))
      | _ \<Rightarrow> None)"


section \<open>normalize\_lists.py\<close>

text \<open>A \<open>for\<close> loop whose body may raise: the first exception ends it.\<close>

fun fold_err :: "('a \<Rightarrow> 'b \<Rightarrow> error + 'b) \<Rightarrow> 'a list \<Rightarrow> 'b \<Rightarrow> error + 'b" where
  "fold_err f [] acc = Inr acc"
| "fold_err f (x # xs) acc =
     (case f x acc of
        Inl e \<Rightarrow> Inl e
      | Inr acc' \<Rightarrow> fold_err f xs acc')"

text \<open>\<open>_split_multi\<close>: semicolons become commas, the pieces are trimmed, empty ones dropped.\<close>

definition split_multi :: "ustr \<Rightarrow> ustr list" where
  "split_multi s =
     filter (\<lambda>p. p \<noteq> []) (map strip (split_on 44 (map (\<lambda>c. if c = 59 then 44 else c) s)))"

text \<open>
  \<open>_maybe_load_json_array\<close>: only a string in square brackets is parsed, and only a list
  is returned; a parse error is swallowed.
\<close>

definition maybe_load_json_array :: "pyenv \<Rightarrow> ustr \<Rightarrow> pyval list option" where
  "maybe_load_json_array E s =
     (if startswith s [91] \<and> endswith s [93] then
        (case json_loads E s of
           Some (PList arr) \<Rightarrow> Some arr
         | _ \<Rightarrow> None)
      else None)"

text \<open>\<open>parts = _split_multi(s) or [s]\<close>.\<close>

definition token_parts :: "ustr \<Rightarrow> ustr list" where
  "token_parts s = (if split_multi s = [] then [s] else split_multi s)"

text \<open>
  What a sequence argument iterates over (\<open>_is_seq\<close>): the items of a list, the keys of a
  dictionary; a string or a scalar is no sequence.
\<close>

definition seq_items :: "pyval \<Rightarrow> pyval list option" where
  "seq_items v =
     (case v of
        PList items \<Rightarrow> Some items
      | PDict kvs \<Rightarrow> Some (map (\<lambda>(k, _). PStr k) kvs)
      | _ \<Rightarrow> None)"

subsection \<open>normalize\_int\_list\<close>

text \<open>\<open>add_number\<close>: \<open>seen\<close> holds exactly the elements of \<open>out\<close>.\<close>

definition add_number :: "int \<Rightarrow> int list \<Rightarrow> int list" where
  "add_number n out = (if n \<in> set out then out else out @ [n])"

text \<open>
  The body of \<open>for p in parts\<close>: the part is kept when, without its leading signs, it is
  all digits and \<open>int\<close> accepts it; the \<open>try\<close> around \<open>int\<close> drops it otherwise.
\<close>

definition add_int_part :: "pyenv \<Rightarrow> ustr \<Rightarrow> int list \<Rightarrow> int list" where
  "add_int_part E p out =
     (let p_norm = strip (normalize_wrapping_quotes p) in
      if p_norm = [] then out
      else if str_isdigit E (dropWhile (\<lambda>c. c = 43 \<or> c = 45) p_norm) then
        (case int_of_str E p_norm of
           None \<Rightarrow> out
         | Some n \<Rightarrow> add_number n out)
      else out)"

text \<open>
  \<open>handle_token\<close> calls itself on the elements of a JSON array. Its second argument is
  the number of nested calls the interpreter still allows; at none left the call raises
  \<open>RecursionError\<close>, which nothing here catches.
\<close>

fun handle_int_token :: "pyenv \<Rightarrow> nat \<Rightarrow> pyval \<Rightarrow> int list \<Rightarrow> error + int list" where
  "handle_int_token E 0 tok out = Inl RecursionError"
| "handle_int_token E (Suc depth) tok out =
     (case tok of
        PInt i \<Rightarrow> Inr (add_number i out)
      | _ \<Rightarrow>
          (let s = strip (normalize_wrapping_quotes (py_str E tok)) in
           if s = [] then Inr out
           else (case maybe_load_json_array E s of
                   Some arr \<Rightarrow> fold_err (\<lambda>el acc. handle_int_token E depth el acc) arr out
                 | None \<Rightarrow> Inr (fold (add_int_part E) (token_parts s) out))))"

definition normalize_int_list :: "pyenv \<Rightarrow> pyval \<Rightarrow> error + int list" where
  "normalize_int_list E v =
     (if v = PNone then Inr []
      else (case seq_items v of
              Some items \<Rightarrow> fold_err (handle_int_token E (recursion_limit E)) items []
            | None \<Rightarrow> handle_int_token E (recursion_limit E) v []))"

subsection \<open>normalize\_str\_list\<close>

definition add_token :: "pyenv \<Rightarrow> bool \<Rightarrow> ustr \<Rightarrow> ustr list \<Rightarrow> ustr list" where
  "add_token E lowercase txt out =
     (let s = strip (normalize_wrapping_quotes txt) in
      if s = [] then out
      else (let s' = (if lowercase then str_lower E s else s) in
            if s' \<in> set out then out else out @ [s']))"

fun handle_str_token :: "pyenv \<Rightarrow> bool \<Rightarrow> nat \<Rightarrow> pyval \<Rightarrow> ustr list \<Rightarrow> error + ustr list" where
  "handle_str_token E lowercase 0 tok out = Inl RecursionError"
| "handle_str_token E lowercase (Suc depth) tok out =
     (let s = strip (normalize_wrapping_quotes (py_str E tok)) in
      if s = [] then Inr out
      else (case maybe_load_json_array E s of
              Some arr \<Rightarrow> fold_err (\<lambda>el acc. handle_str_token E lowercase depth el acc) arr out
            | None \<Rightarrow> Inr (fold (add_token E lowercase) (token_parts s) out)))"

definition normalize_str_list :: "pyenv \<Rightarrow> pyval \<Rightarrow> bool \<Rightarrow> error + ustr list" where
  "normalize_str_list E v lowercase =
     (if v = PNone then Inr []
      else (case seq_items v of
              Some items \<Rightarrow> fold_err (handle_str_token E lowercase (recursion_limit E)) items []
            | None \<Rightarrow> handle_str_token E lowercase (recursion_limit E) v []))"

section \<open>normalize\_timestamp.py\<close>

text \<open>
  Lines 35 to 40 and 71 to 74: a naive \<open>datetime\<close> is taken as UTC (\<open>replace\<close> changes no field); an
  aware one is converted with \<open>astimezone\<close>, which subtracts the offset and raises
  \<open>OverflowError\<close> when the result leaves the years 1 to 9999. A UTC-aware result is its
  count of microseconds.
\<close>

definition to_utc :: "datetime \<Rightarrow> error + int" where
  "to_utc dt =
     (case dt of
        Naive w \<Rightarrow> Inr w
      | Aware w off \<Rightarrow>
          (if off = 0 then Inr w
           else if 0 \<le> w - off \<and> w - off \<le> MAX_US then Inr (w - off)
           else Inl OverflowError))"

text \<open>
  Lines 45 to 53: the quotes go, then a trailing \<open>UTC\<close> after a space (in any case), then
  a trailing \<open>Z\<close> becomes \<open>+00:00\<close>.
\<close>

definition timestamp_text :: "pyenv \<Rightarrow> ustr \<Rightarrow> ustr" where
  "timestamp_text E v =
     (let s = normalize_wrapping_quotes v;
          s = (if endswith (str_upper E s) (ascii '' UTC'') then take (length s - 4) s else s)
      in if endswith s (ascii ''Z'') then butlast s @ ascii ''+00:00'' else s)"

text \<open>
  Lines 55 to 69: \<open>fromisoformat\<close> first; when it raises, \<open>strptime\<close> with the format the
  characters of the string select; \<open>None\<close> when that raises too.
\<close>

definition parse_datetime :: "pyenv \<Rightarrow> ustr \<Rightarrow> datetime option" where
  "parse_datetime E s =
     (case fromisoformat E s of
        Some dt \<Rightarrow> Some dt
      | None \<Rightarrow>
          (if 32 \<in> set s \<and> 58 \<in> set s then
             (if 46 \<in> set s then strptime E s (ascii ''%Y-%m-%d %H:%M:%S.%f'')
              else strptime E s (ascii ''%Y-%m-%d %H:%M:%S''))
           else strptime E s (ascii ''%Y-%m-%d'')))"

definition normalize_timestamp :: "pyenv \<Rightarrow> pyval \<Rightarrow> int option \<Rightarrow> error + int option" where
  "normalize_timestamp E v fallback =
     (case v of
        PNone \<Rightarrow> Inr fallback
      | PDatetime dt \<Rightarrow> map_sum id Some (to_utc dt)
      | PStr s \<Rightarrow>
          (case parse_datetime E (timestamp_text E s) of
             None \<Rightarrow> Inr fallback
           | Some dt \<Rightarrow> map_sum id Some (to_utc dt))
      | _ \<Rightarrow> Inr fallback)"

section \<open>evtxio.py: helpers\<close>

text \<open>
  \<open>_normalize_path\<close>: a \<open>Path\<close> is returned as it is, a string loses its wrapping quotes.
  A path is the text that names it.
\<close>

datatype evtx_path = PathObj ustr | PathStr ustr

definition normalize_path :: "evtx_path \<Rightarrow> ustr" where
  "normalize_path p =
     (case p of
        PathObj q \<Rightarrow> q
      | PathStr s \<Rightarrow> normalize_wrapping_quotes s)"

text \<open>
  \<open>_get_dotted\<close>, the loop over \<open>dotted.split(''.'')\<close>. In a list, a part that \<open>isdigit\<close>
  accepts goes to \<open>int\<close> with no \<open>try\<close> around it: when \<open>int\<close> rejects it, the
  \<open>ValueError\<close> leaves the function. \<open>0 <= idx\<close> always holds of an accepted part.
\<close>

fun walk_parts :: "pyenv \<Rightarrow> pyval \<Rightarrow> ustr list \<Rightarrow> error + pyval" where
  "walk_parts E cur [] = Inr cur"
| "walk_parts E cur (part # rest) =
     (case cur of
        PDict d \<Rightarrow>
          (case map_of d part of
             Some v \<Rightarrow> walk_parts E v rest
           | None \<Rightarrow> Inr PNone)
      | PList xs \<Rightarrow>
          (if str_isdigit E part then
             (case int_of_str E part of
                None \<Rightarrow> Inl ValueError
              | Some idx \<Rightarrow>
                  (if 0 \<le> idx \<and> idx < int (length xs) then walk_parts E (xs ! nat idx) rest
                   else Inr PNone))
           else Inr PNone)
      | _ \<Rightarrow> Inr PNone)"

definition get_dotted :: "pyenv \<Rightarrow> pyval \<Rightarrow> ustr \<Rightarrow> error + pyval" where
  "get_dotted E obj dotted = walk_parts E obj (split_on 46 dotted)"

text \<open>\<open>_as_event_id\<close>: the keys tried in a dictionary, in this order.\<close>

definition EVENT_ID_KEYS :: "ustr list" where
  "EVENT_ID_KEYS = [ascii ''#text'', ascii ''value'', ascii ''Value'']"

lemma size_map_of:
  "map_of d k = Some v \<Longrightarrow> size v < Suc (size_list (size_prod (\<lambda>_. 0) size) d)"
  by (induction d) (auto split: if_splits)

function as_event_id :: "pyenv \<Rightarrow> pyval \<Rightarrow> int option" where
  "as_event_id E PNone = None"
| "as_event_id E (PBool b) = Some (if b then 1 else 0)"
| "as_event_id E (PInt i) = Some i"
| "as_event_id E (PStr s) = int_of_str E s"
| "as_event_id E (PDict d) =
     (case find (\<lambda>key. map_of d key \<noteq> None) EVENT_ID_KEYS of
        None \<Rightarrow> None
      | Some key \<Rightarrow> as_event_id E (dict_get d key))"
| "as_event_id E (PFloat x) = None"
| "as_event_id E (PList xs) = None"
| "as_event_id E (PDatetime dt) = None"
  by pat_completeness auto
termination
proof (relation "measure (\<lambda>(E, v). size v)")
  show "wf (measure (\<lambda>(E, v). size v))" by simp
next
  fix E :: pyenv and d :: "(ustr \<times> pyval) list" and key :: ustr
  assume "find (\<lambda>key. map_of d key \<noteq> None) EVENT_ID_KEYS = Some key"
  then have "map_of d key \<noteq> None" by (auto simp: find_Some_iff)
  then obtain v where v: "map_of d key = Some v" by auto
  then have "size (dict_get d key) < size (PDict d)"
    using size_map_of [OF v] by (simp add: dict_get_def)
  then show "((E, dict_get d key), (E, PDict d)) \<in> measure (\<lambda>(E, v). size v)" by simp
qed

text \<open>
  \<open>_project_fields\<close>: \<open>event_root\<close> is what stands under the key \<open>Event\<close>, or an empty
  dictionary; each path is resolved from \<open>data\<close> and, when that gives \<open>None\<close>, from
  \<open>event_root\<close>.
\<close>

definition event_root :: "pyval \<Rightarrow> pyval" where
  "event_root data =
     (case data of
        PDict d \<Rightarrow> (case map_of d (ascii ''Event'') of None \<Rightarrow> PDict [] | Some v \<Rightarrow> v)
      | _ \<Rightarrow> PDict [])"

definition project_one :: "pyenv \<Rightarrow> pyval \<Rightarrow> ustr \<Rightarrow> error + pyval" where
  "project_one E data f =
     (case get_dotted E data f of
        Inl e \<Rightarrow> Inl e
      | Inr val \<Rightarrow> (if val = PNone then get_dotted E (event_root data) f else Inr val))"

definition project_fields :: "pyenv \<Rightarrow> pyval \<Rightarrow> ustr list \<Rightarrow> error + (ustr \<times> pyval) list" where
  "project_fields E data fields' =
     fold_err (\<lambda>f out. map_sum id (dict_set out f) (project_one E data f)) fields' []"

section \<open>evtxio.py: iter\_events\_from\_evtx\<close>

text \<open>
  The local variables of lines 139 to 177, once normalized. \<open>wanted_ids\<close> is a Python set
  and only membership is asked of it.
\<close>

record filterspec =
  f_lim :: int
  f_cap :: int
  f_start :: "int option"
  f_end :: "int option"
  f_contains :: "ustr list"
  f_not_contains :: "ustr list"
  f_wanted :: "int list"
  f_fields :: "ustr list option"

text \<open>
  Lines 164 to 169: when both keyword lists are non-empty, the terms they share leave
  both.
\<close>

definition remove_overlap :: "ustr list \<Rightarrow> ustr list \<Rightarrow> ustr list \<times> ustr list" where
  "remove_overlap contains_lc not_contains_lc =
     (if contains_lc \<noteq> [] \<and> not_contains_lc \<noteq> [] then
        (let overlap = filter (\<lambda>s. s \<in> set not_contains_lc) contains_lc in
         if overlap \<noteq> [] then
           (filter (\<lambda>s. s \<notin> set overlap) contains_lc,
            filter (\<lambda>s. s \<notin> set overlap) not_contains_lc)
         else (contains_lc, not_contains_lc))
      else (contains_lc, not_contains_lc))"

text \<open>
  Lines 151 to 158: a bound that is given is normalized with the clock as fallback; two
  bounds in the wrong order are swapped.
\<close>

definition time_bounds :: "pyenv \<Rightarrow> pyval \<Rightarrow> pyval \<Rightarrow> error + (int option \<times> int option)" where
  "time_bounds E start end' =
     (case (if start \<noteq> PNone then normalize_timestamp E start (Some (utc_now E)) else Inr None) of
        Inl e \<Rightarrow> Inl e
      | Inr s \<Rightarrow>
          (case (if end' \<noteq> PNone then normalize_timestamp E end' (Some (utc_now E)) else Inr None) of
             Inl e \<Rightarrow> Inl e
           | Inr e \<Rightarrow>
               (case (s, e) of
                  (Some a, Some b) \<Rightarrow> (if b < a then Inr (Some b, Some a) else Inr (s, e))
                | _ \<Rightarrow> Inr (s, e))))"

text \<open>
  Lines 139 to 177. \<open>None\<close> is the early \<open>return\<close> of a limit that did not normalize; an
  exception of a normalizer leaves the function.
\<close>

definition build_filter ::
  "pyenv \<Rightarrow> pyval \<Rightarrow> pyval \<Rightarrow> pyval \<Rightarrow> pyval \<Rightarrow> pyval \<Rightarrow> pyval \<Rightarrow> pyval \<Rightarrow> pyval \<Rightarrow>
   error + filterspec option" where
  "build_filter E start end' results_limit scan_limit event_ids contains not_contains fields' =
     (case normalize_int E results_limit (RESULTS_LIMIT E) of
        None \<Rightarrow> Inr None
      | Some lim \<Rightarrow>
     (case normalize_int E scan_limit (SCAN_LIMIT E) of
        None \<Rightarrow> Inr None
      | Some cap \<Rightarrow>
     (case time_bounds E start end' of
        Inl e \<Rightarrow> Inl e
      | Inr (s, e) \<Rightarrow>
     (case normalize_str_list E contains True of
        Inl e \<Rightarrow> Inl e
      | Inr contains_lc \<Rightarrow>
     (case normalize_str_list E not_contains True of
        Inl e \<Rightarrow> Inl e
      | Inr not_contains_lc \<Rightarrow>
     (case normalize_int_list E event_ids of
        Inl e \<Rightarrow> Inl e
      | Inr wanted_ids \<Rightarrow>
     (case (if fields' \<noteq> PNone then map_sum id Some (normalize_str_list E fields' False)
            else Inr None) of
        Inl e \<Rightarrow> Inl e
      | Inr fields_norm \<Rightarrow>
          Inr (Some \<lparr>f_lim = min lim (RESULTS_LIMIT E),
                     f_cap = min cap (SCAN_LIMIT E),
                     f_start = s,
                     f_end = e,
                     f_contains = fst (remove_overlap contains_lc not_contains_lc),
                     f_not_contains = snd (remove_overlap contains_lc not_contains_lc),
                     f_wanted = wanted_ids,
                     f_fields = fields_norm\<rparr>))))))))"

text \<open>
  The body of the loop after \<open>scanned += 1\<close>, lines 194 to 234, on one record (a
  dictionary): the record is skipped (\<open>continue\<close>), yields a value, or an exception
  leaves the body.
\<close>

datatype outcome = Skip | Emit pyval | Abort error

text \<open>Lines 200 and 202: the keyword tests on the lowercased payload.\<close>

definition keywords_pass :: "filterspec \<Rightarrow> ustr \<Rightarrow> bool" where
  "keywords_pass F lower =
     (\<not> (f_contains F \<noteq> [] \<and> \<not> list_ex (\<lambda>k. str_contains lower k) (f_contains F)) \<and>
      \<not> (f_not_contains F \<noteq> [] \<and> list_ex (\<lambda>k. str_contains lower k) (f_not_contains F)))"

text \<open>Line 214: the test on the event id.\<close>

definition event_id_pass :: "filterspec \<Rightarrow> int option \<Rightarrow> bool" where
  "event_id_pass F eid =
     (\<not> (f_wanted F \<noteq> [] \<and> (case eid of None \<Rightarrow> True | Some i \<Rightarrow> i \<notin> set (f_wanted F))))"

text \<open>
  Lines 218 to 221: the time of the event, from \<open>SystemTime\<close> and, when that gives
  \<open>None\<close>, from the record's own \<open>timestamp\<close>.
\<close>

definition event_time :: "pyenv \<Rightarrow> pyval \<Rightarrow> pyval \<Rightarrow> error + int option" where
  "event_time E ts rec_ts =
     (case normalize_timestamp E ts None of
        Inl e \<Rightarrow> Inl e
      | Inr (Some t) \<Rightarrow> Inr (Some t)
      | Inr None \<Rightarrow> normalize_timestamp E rec_ts None)"

text \<open>Lines 225 to 228: the test against the bounds.\<close>

definition in_time_range :: "filterspec \<Rightarrow> int \<Rightarrow> bool" where
  "in_time_range F event_dt =
     (\<not> (case f_start F of None \<Rightarrow> False | Some s \<Rightarrow> event_dt < s) \<and>
      \<not> (case f_end F of None \<Rightarrow> False | Some e \<Rightarrow> e < event_dt))"

text \<open>Lines 231 to 234: a non-empty field list projects the event.\<close>

definition emit :: "pyenv \<Rightarrow> filterspec \<Rightarrow> pyval \<Rightarrow> outcome" where
  "emit E F data =
     (case f_fields F of
        None \<Rightarrow> Emit data
      | Some fs \<Rightarrow>
          (if fs = [] then Emit data
           else (case project_fields E data fs of
                   Inl e \<Rightarrow> Abort e
                 | Inr out \<Rightarrow> Emit (PDict out))))"

definition process_record :: "pyenv \<Rightarrow> filterspec \<Rightarrow> (ustr \<times> pyval) list \<Rightarrow> outcome" where
  "process_record E F record =
     (case dict_get record (ascii ''data'') of
        PStr data_str \<Rightarrow>
          (if data_str = [] then Skip
           else if \<not> keywords_pass F (str_lower E data_str) then Skip
           else
             (case json_loads E data_str of
                None \<Rightarrow> Skip
              | Some data \<Rightarrow>
             (case get_dotted E data (ascii ''Event.System.EventID'') of
                Inl e \<Rightarrow> Abort e
              | Inr eid_raw \<Rightarrow>
                  (if \<not> event_id_pass F (as_event_id E eid_raw) then Skip
                   else
             (case get_dotted E data (ascii ''Event.System.TimeCreated.#attributes.SystemTime'') of
                Inl e \<Rightarrow> Abort e
              | Inr ts \<Rightarrow>
             (case event_time E ts (dict_get record (ascii ''timestamp'')) of
                Inl e \<Rightarrow> Abort e
              | Inr None \<Rightarrow> Skip
              | Inr (Some event_dt) \<Rightarrow>
                  (if in_time_range F event_dt then emit E F data else Skip)))))))
      | _ \<Rightarrow> Skip)"

text \<open>
  What \<open>parser.records_json()\<close> gives the \<open>for\<close> loop: records one after the other, until
  the decoder is exhausted or raises.
\<close>

datatype rec_stream = Exhausted | Crash | Next "(ustr \<times> pyval) list" rec_stream

text \<open>
  The loop of lines 183 to 238, from the counters \<open>scanned\<close> and \<open>returned\<close>. The result
  is the values yielded and the final counters. Whatever is raised inside the \<open>try\<close>, by
  the decoder or by the body, ends the loop and is dropped (\<open>except Exception: pass\<close>).
\<close>

fun scan_loop ::
  "pyenv \<Rightarrow> filterspec \<Rightarrow> int \<Rightarrow> int \<Rightarrow> rec_stream \<Rightarrow> pyval list \<times> int \<times> int" where
  "scan_loop E F scanned returned Exhausted = ([], scanned, returned)"
| "scan_loop E F scanned returned Crash = ([], scanned, returned)"
| "scan_loop E F scanned returned (Next record rest) =
     (if f_cap F \<le> scanned then ([], scanned, returned)
      else if f_lim F \<le> returned then ([], scanned, returned)
      else (case process_record E F record of
              Skip \<Rightarrow> scan_loop E F (scanned + 1) returned rest
            | Abort e \<Rightarrow> ([], scanned + 1, returned)
            | Emit v \<Rightarrow>
                (case scan_loop E F (scanned + 1) (returned + 1) rest of
                   (out, counters) \<Rightarrow> (v # out, counters))))"

text \<open>
  What a path names: nothing that is a file, a file the decoder refuses to open
  (\<open>PyEvtxParser(...)\<close> raises, outside the \<open>try\<close>), or a log with its records.
\<close>

datatype fs_entry = NotFile | Unreadable | Evtx rec_stream

text \<open>
  \<open>iter_events_from_evtx\<close>. The generator either raises before its first value or yields
  all its values and stops: the result is the exception or the list of values.
\<close>

definition iter_events_from_evtx ::
  "pyenv \<Rightarrow> (ustr \<Rightarrow> fs_entry) \<Rightarrow> evtx_path \<Rightarrow> pyval \<Rightarrow> pyval \<Rightarrow> pyval \<Rightarrow> pyval \<Rightarrow>
   pyval \<Rightarrow> pyval \<Rightarrow> pyval \<Rightarrow> pyval \<Rightarrow> error + pyval list" where
  "iter_events_from_evtx E fs evtx_path start end' results_limit scan_limit
     event_ids contains not_contains fields' =
     (case fs (normalize_path evtx_path) of
        NotFile \<Rightarrow> Inr []
      | entry \<Rightarrow>
          (case build_filter E start end' results_limit scan_limit
                  event_ids contains not_contains fields' of
             Inl e \<Rightarrow> Inl e
           | Inr None \<Rightarrow> Inr []
           | Inr (Some F) \<Rightarrow>
               (case entry of
                  Evtx records \<Rightarrow> Inr (fst (scan_loop E F 0 0 records))
                | _ \<Rightarrow> Inl DecoderError)))"

section \<open>Notions the properties are stated with\<close>

text \<open>
  A string wrapped in layers of delimiter pairs: each opening mark of the list goes in
  front, its closing mark of \<open>_QUOTE_PAIRS\<close> behind, the first mark outermost.
\<close>

fun wrap_layers :: "nat list \<Rightarrow> ustr \<Rightarrow> ustr" where
  "wrap_layers [] s = s"
| "wrap_layers (q # qs) s =
     (case map_of QUOTE_PAIRS q of
        None \<Rightarrow> wrap_layers qs s
      | Some closer \<Rightarrow> q # wrap_layers qs s @ [closer])"

text \<open>The records a decoder produces before it stops, and a decoder that produces them.\<close>

fun produced :: "rec_stream \<Rightarrow> (ustr \<times> pyval) list list" where
  "produced Exhausted = []"
| "produced Crash = []"
| "produced (Next record rest) = record # produced rest"

fun records_then :: "(ustr \<times> pyval) list list \<Rightarrow> rec_stream \<Rightarrow> rec_stream" where
  "records_then [] ending = ending"
| "records_then (record # records) ending = Next record (records_then records ending)"

text \<open>The filter of a call that gives no constraint, with its two limits.\<close>

definition unconstrained :: "int \<Rightarrow> int \<Rightarrow> filterspec" where
  "unconstrained lim cap =
     \<lparr>f_lim = lim, f_cap = cap, f_start = None, f_end = None, f_contains = [],
      f_not_contains = [], f_wanted = [], f_fields = None\<rparr>"


text \<open>
  A parseable record, in the words of the specification: its payload is a non-empty
  text and parses into an event. \<open>spec_parseable\<close> gives the event of such a record.
\<close>

definition spec_parseable :: "pyenv \<Rightarrow> (ustr \<times> pyval) list \<Rightarrow> pyval option" where
  "spec_parseable E record =
     (case dict_get record (ascii ''data'') of
        PStr payload \<Rightarrow> (if payload = [] then None else json_loads E payload)
      | _ \<Rightarrow> None)"

text \<open>
  The time of a record: that of its event, resolved from the \<open>SystemTime\<close> attribute or
  else from the record's own timestamp. There is none when the record is not parseable,
  when neither place gives a time, and when resolving raises.
\<close>

definition spec_event_time :: "pyenv \<Rightarrow> (ustr \<times> pyval) list \<Rightarrow> int option" where
  "spec_event_time E record =
     (case spec_parseable E record of
        None \<Rightarrow> None
      | Some data \<Rightarrow>
          (case get_dotted E data (ascii ''Event.System.TimeCreated.#attributes.SystemTime'') of
             Inl e \<Rightarrow> None
           | Inr ts \<Rightarrow>
               (case event_time E ts (dict_get record (ascii ''timestamp'')) of
                  Inl e \<Rightarrow> None
                | Inr t \<Rightarrow> t)))"


text \<open>
  What the body of the loop does with one record under a filter: the value it yields, if
  any, and whether it raises.
\<close>

definition yielded :: "pyenv \<Rightarrow> filterspec \<Rightarrow> (ustr \<times> pyval) list \<Rightarrow> pyval option" where
  "yielded E F record =
     (case process_record E F record of
        Emit v \<Rightarrow> Some v
      | _ \<Rightarrow> None)"

definition aborts :: "pyenv \<Rightarrow> filterspec \<Rightarrow> (ustr \<times> pyval) list \<Rightarrow> bool" where
  "aborts E F record =
     (case process_record E F record of
        Abort e \<Rightarrow> True
      | _ \<Rightarrow> False)"


text \<open>A filter without its time bounds.\<close>

definition without_bounds :: "filterspec \<Rightarrow> filterspec" where
  "without_bounds F = F\<lparr>f_start := None, f_end := None\<rparr>"

text \<open>
  The output under a filter whose range test is \<open>ok\<close>. The records examined are the
  first \<open>cap\<close> records, up to the first on which the body of the loop raises; of these,
  a record whose time passes the test yields what it yields under the same filter
  without time bounds, and a record with no time or a time that fails the test yields
  nothing; the values are cut to the first \<open>lim\<close>.
\<close>

definition spec_range_output ::
  "pyenv \<Rightarrow> filterspec \<Rightarrow> (int \<Rightarrow> bool) \<Rightarrow> (ustr \<times> pyval) list list \<Rightarrow> pyval list" where
  "spec_range_output E F ok records =
     take (nat (f_lim F))
       (List.map_filter
          (\<lambda>record. case spec_event_time E record of
                       None \<Rightarrow> None
                     | Some t \<Rightarrow> (if ok t then yielded E (without_bounds F) record else None))
          (takeWhile (\<lambda>record. \<not> aborts E F record) (take (nat (f_cap F)) records)))"

section \<open>A runtime to evaluate the functions on\<close>

text \<open>
  The library functions on the texts of the examples below, where they agree with
  CPython: letters and numerals of ASCII, the three superscript digits of Latin-1
  (\<open>isdigit\<close> accepts U+00B2, U+00B3 and U+00B9, and \<open>int\<close> rejects them), and a table
  each for the payloads and the dates that are parsed. No example takes \<open>str\<close> of a value
  that is not a string.
\<close>

definition ascii_lower :: "ustr \<Rightarrow> ustr" where
  "ascii_lower s = map (\<lambda>c. if 65 \<le> c \<and> c \<le> 90 then c + 32 else c) s"

definition ascii_upper :: "ustr \<Rightarrow> ustr" where
  "ascii_upper s = map (\<lambda>c. if 97 \<le> c \<and> c \<le> 122 then c - 32 else c) s"

definition latin1_isdigit :: "ustr \<Rightarrow> bool" where
  "latin1_isdigit s =
     (s \<noteq> [] \<and> list_all (\<lambda>c. (48 \<le> c \<and> c \<le> 57) \<or> c = 178 \<or> c = 179 \<or> c = 185) s)"

fun digits_value :: "ustr \<Rightarrow> int \<Rightarrow> int option" where
  "digits_value [] acc = Some acc"
| "digits_value (c # cs) acc =
     (if 48 \<le> c \<and> c \<le> 57 then digits_value cs (acc * 10 + int (c - 48)) else None)"

definition ascii_int :: "ustr \<Rightarrow> int option" where
  "ascii_int s =
     (case strip s of
        [] \<Rightarrow> None
      | c # cs \<Rightarrow>
          (if c = 43 then (if cs = [] then None else digits_value cs 0)
           else if c = 45 then (if cs = [] then None else map_option uminus (digits_value cs 0))
           else digits_value (c # cs) 0))"

definition example_payloads :: "(ustr \<times> pyval) list" where
  "example_payloads =
     [(ascii ''{}'', PDict []), (ascii ''[7]'', PList [PInt 7])]"

definition example_dates :: "(ustr \<times> datetime) list" where
  "example_dates =
     [(ascii ''2019-07-19'', Naive (737258 * 86400000000)),
      (ascii ''2020-01-01'', Naive (737424 * 86400000000)),
      (ascii ''2030-01-01'', Naive (741077 * 86400000000)),
      (ascii ''0001-01-01T00:00:00+01:00'', Aware 0 3600000000)]"

definition example_env :: pyenv where
  "example_env =
     \<lparr>RESULTS_LIMIT = 2,
      SCAN_LIMIT = 3,
      utc_now = 737424 * 86400000000,
      recursion_limit = 1000,
      str_lower = ascii_lower,
      str_upper = ascii_upper,
      str_isdigit = latin1_isdigit,
      int_of_str = ascii_int,
      str_of = (\<lambda>v. []),
      json_loads = map_of example_payloads,
      fromisoformat = map_of example_dates,
      strptime = (\<lambda>s fmt. None)\<rparr>"

text \<open>
  Records: one whose payload is the empty object and whose timestamp is a date of 2019,
  one with no payload, one whose payload is an array and whose timestamp is a date of
  2030, one whose timestamp is the first hour of year 1 at an offset of one hour (the
  conversion to UTC leaves the years \<open>datetime\<close> has), and one with a payload and no
  timestamp.
\<close>

definition good_record :: "(ustr \<times> pyval) list" where
  "good_record = [(ascii ''data'', PStr (ascii ''{}'')), (ascii ''timestamp'', PStr (ascii ''2019-07-19''))]"

definition bad_record :: "(ustr \<times> pyval) list" where
  "bad_record = [(ascii ''timestamp'', PStr (ascii ''2019-07-19''))]"

definition late_record :: "(ustr \<times> pyval) list" where
  "late_record = [(ascii ''data'', PStr (ascii ''[7]'')), (ascii ''timestamp'', PStr (ascii ''2030-01-01''))]"

definition overflow_record :: "(ustr \<times> pyval) list" where
  "overflow_record =
     [(ascii ''data'', PStr (ascii ''{}'')),
      (ascii ''timestamp'', PStr (ascii ''0001-01-01T00:00:00+01:00''))]"

definition timeless_record :: "(ustr \<times> pyval) list" where
  "timeless_record = [(ascii ''data'', PStr (ascii ''{}''))]"

definition example_fs :: "rec_stream \<Rightarrow> ustr \<Rightarrow> fs_entry" where
  "example_fs src p = (if p = ascii ''a.evtx'' then Evtx src else NotFile)"

section \<open>The loop: counters, limits and the end of the stream\<close>

lemma scan_loop_stop:
  "f_cap F \<le> sc \<or> f_lim F \<le> rt \<Longrightarrow> scan_loop E F sc rt src = ([], sc, rt)"
  by (cases src) auto

lemma scan_loop_counters:
  "scan_loop E F sc rt src = (out, sc', rt') \<Longrightarrow>
   rt' = rt + int (length out) \<and> sc \<le> sc' \<and> sc' \<le> max sc (f_cap F) \<and> rt' \<le> max rt (f_lim F)"
proof (induction src arbitrary: sc rt out sc' rt')
  case Exhausted
  then show ?case by simp
next
  case Crash
  then show ?case by simp
next
  case (Next r rest)
  show ?case
  proof (cases "f_cap F \<le> sc \<or> f_lim F \<le> rt")
    case True
    from scan_loop_stop [OF True, of E "Next r rest"] Next.prems
    show ?thesis by auto
  next
    case False
    show ?thesis
    proof (cases "process_record E F r")
      case Skip
      then have "scan_loop E F (sc + 1) rt rest = (out, sc', rt')"
        using False Next.prems by simp
      from Next.IH [OF this] False show ?thesis by auto
    next
      case (Abort e)
      then show ?thesis using False Next.prems by auto
    next
      case (Emit v)
      obtain out2 sc2 rt2 where r: "scan_loop E F (sc + 1) (rt + 1) rest = (out2, sc2, rt2)"
        by (cases "scan_loop E F (sc + 1) (rt + 1) rest") auto
      then have "out = v # out2" "sc' = sc2" "rt' = rt2"
        using Emit False Next.prems by auto
      with Next.IH [OF r] False show ?thesis by auto
    qed
  qed
qed

lemma scan_loop_prefix:
  "scan_loop E F sc rt src =
   scan_loop E F sc rt (records_then (take (nat (f_cap F - sc)) (produced src)) Exhausted)"
proof (induction src arbitrary: sc rt)
  case Exhausted
  then show ?case by simp
next
  case Crash
  then show ?case by simp
next
  case (Next r rest)
  show ?case
  proof (cases "f_cap F \<le> sc")
    case True
    then show ?thesis by simp
  next
    case False
    then obtain k where k: "nat (f_cap F - sc) = Suc k" "nat (f_cap F - (sc + 1)) = k"
      by (cases "nat (f_cap F - sc)") auto
    show ?thesis
      using False k Next.IH [of "sc + 1" rt] Next.IH [of "sc + 1" "rt + 1"]
      by (simp split: outcome.splits)
  qed
qed

lemma scan_loop_produced:
  "scan_loop E F sc rt src = scan_loop E F sc rt (records_then (produced src) Exhausted)"
  by (induction src arbitrary: sc rt) (auto split: outcome.splits)


section \<open>What the loop yields\<close>

lemma outcome_views:
  "process_record E F r = Skip \<Longrightarrow> yielded E F r = None \<and> \<not> aborts E F r"
  "process_record E F r = Abort e \<Longrightarrow> yielded E F r = None \<and> aborts E F r"
  "process_record E F r = Emit v \<Longrightarrow> yielded E F r = Some v \<and> \<not> aborts E F r"
  by (simp_all add: yielded_def aborts_def)

lemma scan_loop_output:
  "fst (scan_loop E F sc rt src) =
   take (nat (f_lim F - rt))
     (List.map_filter (yielded E F)
        (takeWhile (\<lambda>r. \<not> aborts E F r) (take (nat (f_cap F - sc)) (produced src))))"
proof (induction src arbitrary: sc rt)
  case Exhausted
  then show ?case by (simp add: List.map_filter_simps)
next
  case Crash
  then show ?case by (simp add: List.map_filter_simps)
next
  case (Next r rest)
  show ?case
  proof (cases "f_cap F \<le> sc")
    case True
    then show ?thesis by (simp add: List.map_filter_simps)
  next
    case False
    then obtain k where k: "nat (f_cap F - sc) = Suc k" "nat (f_cap F - (sc + 1)) = k"
      by (cases "nat (f_cap F - sc)") auto
    show ?thesis
    proof (cases "f_lim F \<le> rt")
      case True
      then show ?thesis using False by simp
    next
      case lim_open: False
      then obtain m where m: "nat (f_lim F - rt) = Suc m" "nat (f_lim F - (rt + 1)) = m"
        by (cases "nat (f_lim F - rt)") auto
      show ?thesis
      proof (cases "process_record E F r")
        case Skip
        then show ?thesis
          using False lim_open k Next.IH [of "sc + 1" rt] outcome_views(1) [OF Skip]
          by (simp add: List.map_filter_simps)
      next
        case (Abort e)
        then show ?thesis
          using False lim_open k outcome_views(2) [OF Abort]
          by (simp add: List.map_filter_simps)
      next
        case (Emit v)
        then show ?thesis
          using False lim_open k m Next.IH [of "sc + 1" "rt + 1"] outcome_views(3) [OF Emit]
          by (simp add: List.map_filter_simps case_prod_unfold)
      qed
    qed
  qed
qed

lemma without_bounds_pass:
  "keywords_pass (without_bounds F) s = keywords_pass F s"
  "event_id_pass (without_bounds F) eid = event_id_pass F eid"
  "in_time_range (without_bounds F) t"
  "emit E (without_bounds F) data = emit E F data"
  by (simp_all add: without_bounds_def keywords_pass_def event_id_pass_def in_time_range_def
      emit_def split: option.splits)

lemma yielded_in_range:
  "yielded E F r =
     (case spec_event_time E r of
        None \<Rightarrow> None
      | Some t \<Rightarrow>
          (if (case f_start F of None \<Rightarrow> True | Some lo \<Rightarrow> lo \<le> t) \<and>
              (case f_end F of None \<Rightarrow> True | Some hi \<Rightarrow> t \<le> hi)
           then yielded E (without_bounds F) r else None))"
proof -
  let ?ts = "ascii ''Event.System.TimeCreated.#attributes.SystemTime''"
  let ?ok = "\<lambda>t. (case f_start F of None \<Rightarrow> True | Some lo \<Rightarrow> lo \<le> t) \<and>
              (case f_end F of None \<Rightarrow> True | Some hi \<Rightarrow> t \<le> hi)"
  have range: "\<And>t. in_time_range F t = ?ok t"
    by (auto simp: in_time_range_def split: option.splits)
  show ?thesis
  proof (cases "dict_get r (ascii ''data'')")
    case (PStr s)
    show ?thesis
    proof (cases "s = []")
      case True
      then show ?thesis
        using PStr by (simp add: yielded_def process_record_def spec_event_time_def spec_parseable_def)
    next
      case ne: False
      show ?thesis
      proof (cases "json_loads E s")
        case None
        then show ?thesis
          using PStr ne
          by (simp add: yielded_def process_record_def spec_event_time_def spec_parseable_def)
      next
        case (Some data)
        note pre = PStr ne Some
        have sp: "spec_parseable E r = Some data"
          using pre by (simp add: spec_parseable_def)
        show ?thesis
        proof (cases "get_dotted E data ?ts")
          case (Inl e)
          then show ?thesis
            using pre sp
            by (simp add: yielded_def process_record_def spec_event_time_def
                split: sum.splits)
        next
          case ts: (Inr tsv)
          show ?thesis
          proof (cases "event_time E tsv (dict_get r (ascii ''timestamp''))")
            case (Inl e)
            then show ?thesis
              using pre sp ts
              by (simp add: yielded_def process_record_def spec_event_time_def
                  split: sum.splits)
          next
            case (Inr t)
            show ?thesis
            proof (cases t)
              case None
              then show ?thesis
                using pre sp ts Inr
                by (simp add: yielded_def process_record_def spec_event_time_def
                    split: sum.splits)
            next
              case (Some tv)
              then show ?thesis
                using pre sp ts Inr range [of tv]
                by (simp add: yielded_def process_record_def spec_event_time_def
                    without_bounds_pass split: sum.splits)
            qed
          qed
        qed
      qed
    qed
  qed (simp_all add: yielded_def process_record_def spec_event_time_def spec_parseable_def)
qed


section \<open>The loop without constraints\<close>

lemma unconstrained_pass:
  "keywords_pass (unconstrained lim cap) s"
  "event_id_pass (unconstrained lim cap) eid"
  "in_time_range (unconstrained lim cap) t"
  "emit E (unconstrained lim cap) data = Emit data"
  by (simp_all add: unconstrained_def keywords_pass_def event_id_pass_def in_time_range_def
      emit_def)

lemma normalize_str_list_None: "normalize_str_list E PNone lc = Inr []"
  by (simp add: normalize_str_list_def)

lemma normalize_int_list_None: "normalize_int_list E PNone = Inr []"
  by (simp add: normalize_int_list_def)

lemma build_filter_unconstrained:
  "normalize_int E results_limit (RESULTS_LIMIT E) = Some lim \<Longrightarrow>
   normalize_int E scan_limit (SCAN_LIMIT E) = Some cap \<Longrightarrow>
   build_filter E PNone PNone results_limit scan_limit PNone PNone PNone PNone =
   Inr (Some (unconstrained (min lim (RESULTS_LIMIT E)) (min cap (SCAN_LIMIT E))))"
  by (simp add: build_filter_def time_bounds_def normalize_str_list_None
      normalize_int_list_None remove_overlap_def unconstrained_def)


section \<open>Wrapping quotes\<close>

lemma quote_not_space:
  "map_of QUOTE_PAIRS q = Some c \<Longrightarrow> \<not> isspace q \<and> \<not> isspace c"
  by (auto simp: QUOTE_PAIRS_def isspace_def split: if_splits)

lemma strip_wrapped:
  "\<not> isspace q \<Longrightarrow> \<not> isspace c \<Longrightarrow> strip (q # s @ [c]) = q # s @ [c]"
  by (simp add: strip_def lstrip_def rstrip_def)

lemma unwrap_one:
  assumes "map_of QUOTE_PAIRS q = Some c"
  shows "normalize_wrapping_quotes (q # s @ [c]) = normalize_wrapping_quotes s"
proof -
  have sp: "strip (q # s @ [c]) = q # s @ [c]"
    using quote_not_space [OF assms] by (simp add: strip_wrapped)
  have hw: "has_wrapping_pair (q # s @ [c])"
    using assms by (simp add: has_wrapping_pair_def)
  have "unwrap_loop (q # s @ [c]) = unwrap_loop (strip (butlast (tl (q # s @ [c]))))"
    using hw by (subst unwrap_loop.simps) simp
  then show ?thesis
    by (simp add: normalize_wrapping_quotes_def sp butlast_append)
qed

lemma unwrap_unquoted:
  "\<not> has_wrapping_pair (strip s) \<Longrightarrow> normalize_wrapping_quotes s = strip s"
  by (simp add: normalize_wrapping_quotes_def)

lemma unwrap_layers:
  "normalize_wrapping_quotes (wrap_layers qs s) = normalize_wrapping_quotes s"
  by (induction qs) (auto simp: unwrap_one split: option.splits)


section \<open>The example records\<close>

lemma example_good_record:
  "process_record example_env (unconstrained lim cap) good_record = Emit (PDict [])"
  by (simp add: process_record_def good_record_def dict_get_def ascii_def unconstrained_pass
      example_env_def example_payloads_def example_dates_def get_dotted_def event_time_def
      normalize_timestamp_def parse_datetime_def timestamp_text_def normalize_wrapping_quotes_def
      strip_def lstrip_def rstrip_def isspace_def has_wrapping_pair_def QUOTE_PAIRS_def
      endswith_def ascii_upper_def ascii_lower_def to_utc_def)

lemma example_bad_record: "process_record E F bad_record = Skip"
  by (simp add: process_record_def bad_record_def dict_get_def ascii_def)

lemma example_limits: "RESULTS_LIMIT example_env = 2" "SCAN_LIMIT example_env = 3"
  by (simp_all add: example_env_def)

lemma unconstrained_limits: "f_lim (unconstrained lim cap) = lim" "f_cap (unconstrained lim cap) = cap"
  by (simp_all add: unconstrained_def)

lemma example_path: "normalize_path (PathStr (ascii ''a.evtx'')) = ascii ''a.evtx''"
  by (simp add: normalize_path_def normalize_wrapping_quotes_def ascii_def strip_def lstrip_def
      rstrip_def isspace_def has_wrapping_pair_def QUOTE_PAIRS_def)

lemma produced_records_then:
  "produced (records_then records Crash) = records"
  "produced (records_then records Exhausted) = records"
  by (induction records) simp_all

lemma scan_loop_crash:
  "scan_loop E F sc rt (records_then records Crash) =
   scan_loop E F sc rt (records_then records Exhausted)"
  using scan_loop_produced [of E F sc rt "records_then records Crash"]
  by (simp add: produced_records_then)


section \<open>Keyword lists\<close>

lemma remove_overlap_eq:
  "remove_overlap cs ns = (filter (\<lambda>s. s \<notin> set ns) cs, filter (\<lambda>s. s \<notin> set cs) ns)"
proof -
  let ?overlap = "filter (\<lambda>s. s \<in> set ns) cs"
  have a: "filter (\<lambda>s. s \<notin> set ?overlap) cs = filter (\<lambda>s. s \<notin> set ns) cs"
    by (rule filter_cong) auto
  have b: "filter (\<lambda>s. s \<notin> set ?overlap) ns = filter (\<lambda>s. s \<notin> set cs) ns"
    by (rule filter_cong) auto
  have c: "?overlap = [] \<Longrightarrow> filter (\<lambda>s. s \<notin> set ns) cs = cs \<and> filter (\<lambda>s. s \<notin> set cs) ns = ns"
    by (auto simp: filter_empty_conv filter_id_conv)
  show ?thesis
    unfolding remove_overlap_def Let_def using a b c by auto
qed

lemma remove_overlap_same:
  "set cs = set ns \<Longrightarrow> remove_overlap cs ns = ([], [])"
  by (simp add: remove_overlap_eq)

lemma example_depth: "recursion_limit example_env = 1000"
  by (simp add: example_env_def)

lemma handle_str_token_numeral:
  "handle_str_token E lowercase (numeral n) tok out =
     (let s = strip (normalize_wrapping_quotes (py_str E tok)) in
      if s = [] then Inr out
      else (case maybe_load_json_array E s of
              Some arr \<Rightarrow>
                fold_err (\<lambda>el acc. handle_str_token E lowercase (pred_numeral n) el acc) arr out
            | None \<Rightarrow> Inr (fold (add_token E lowercase) (token_parts s) out)))"
  by (simp add: numeral_eq_Suc)

lemma example_runtime:
  "str_lower example_env = ascii_lower"
  "str_upper example_env = ascii_upper"
  "json_loads example_env = map_of example_payloads"
  "fromisoformat example_env = map_of example_dates"
  "strptime example_env = (\<lambda>s fmt. None)"
  "utc_now example_env = 737424 * 86400000000"
  by (simp_all add: example_env_def)

lemma example_contains:
  "normalize_str_list example_env (PList [PStr (ascii ''Foo''), PStr (ascii ''bar'')]) True =
     Inr [ascii ''foo'', ascii ''bar'']"
  by (simp add: normalize_str_list_def seq_items_def example_depth handle_str_token_numeral py_str_def
      example_runtime example_payloads_def maybe_load_json_array_def startswith_def endswith_def token_parts_def
      split_multi_def add_token_def ascii_lower_def ascii_def normalize_wrapping_quotes_def
      strip_def lstrip_def rstrip_def isspace_def has_wrapping_pair_def QUOTE_PAIRS_def)

lemma example_not_contains:
  "normalize_str_list example_env (PStr (ascii ''bar, FOO'')) True =
     Inr [ascii ''bar'', ascii ''foo'']"
  by (simp add: normalize_str_list_def seq_items_def example_depth handle_str_token_numeral py_str_def
      example_runtime example_payloads_def maybe_load_json_array_def startswith_def endswith_def token_parts_def
      split_multi_def add_token_def ascii_lower_def ascii_def normalize_wrapping_quotes_def
      strip_def lstrip_def rstrip_def isspace_def has_wrapping_pair_def QUOTE_PAIRS_def)


section \<open>Time bounds\<close>

lemma to_utc_error: "to_utc dt = Inl e \<Longrightarrow> e = OverflowError"
  by (auto simp: to_utc_def split: datetime.splits if_splits)

lemma normalize_timestamp_error:
  "normalize_timestamp E v fallback = Inl e \<Longrightarrow> e = OverflowError"
  by (cases v)
    (auto simp: normalize_timestamp_def map_sum_def dest: to_utc_error
      split: option.splits sum.splits)

lemma normalize_timestamp_fallback:
  "normalize_timestamp E v (Some now) = Inr r \<Longrightarrow> r \<noteq> None"
  by (cases v)
    (auto simp: normalize_timestamp_def map_sum_def split: option.splits sum.splits)

lemma time_bounds_swap:
  assumes "start \<noteq> PNone" and "end' \<noteq> PNone"
  shows "time_bounds E start end' = time_bounds E end' start"
proof (cases "normalize_timestamp E start (Some (utc_now E))")
  case sl: (Inl e)
  show ?thesis
  proof (cases "normalize_timestamp E end' (Some (utc_now E))")
    case (Inl e')
    then show ?thesis
      using sl assms normalize_timestamp_error [OF sl] normalize_timestamp_error [OF Inl]
      by (simp add: time_bounds_def)
  next
    case (Inr b)
    then show ?thesis using sl assms by (simp add: time_bounds_def)
  qed
next
  case sr: (Inr a)
  show ?thesis
  proof (cases "normalize_timestamp E end' (Some (utc_now E))")
    case (Inl e')
    then show ?thesis using sr assms by (simp add: time_bounds_def)
  next
    case (Inr b)
    obtain x y where "a = Some x" "b = Some y"
      using normalize_timestamp_fallback [OF sr] normalize_timestamp_fallback [OF Inr] by auto
    then show ?thesis using sr Inr assms by (auto simp: time_bounds_def)
  qed
qed

lemma build_filter_bounds:
  "build_filter E start end' results_limit scan_limit event_ids contains not_contains fields'
     = Inr (Some F) \<Longrightarrow> time_bounds E start end' = Inr (f_start F, f_end F)"
  by (auto simp: build_filter_def split: option.splits sum.splits prod.splits)

lemma build_filter_cong_bounds:
  "time_bounds E start end' = time_bounds E start2 end2 \<Longrightarrow>
   build_filter E start end' results_limit scan_limit event_ids contains not_contains fields' =
   build_filter E start2 end2 results_limit scan_limit event_ids contains not_contains fields'"
  by (simp add: build_filter_def split: option.splits)

lemma iter_events_cong_filter:
  "build_filter E start end' results_limit scan_limit event_ids contains not_contains fields' =
   build_filter E start2 end2 results_limit scan_limit event_ids contains not_contains fields' \<Longrightarrow>
   iter_events_from_evtx E fs evtx_path start end' results_limit scan_limit event_ids contains
     not_contains fields' =
   iter_events_from_evtx E fs evtx_path start2 end2 results_limit scan_limit event_ids contains
     not_contains fields'"
  by (simp add: iter_events_from_evtx_def split: fs_entry.splits)

lemma example_timestamps:
  "normalize_timestamp example_env (PStr (ascii ''2019-07-19'')) fb = Inr (Some 63699091200000000)"
  "normalize_timestamp example_env (PStr (ascii ''2030-01-01'')) fb = Inr (Some 64029052800000000)"
  "normalize_timestamp example_env (PStr (ascii ''yesterday'')) fb = Inr fb"
  by (simp_all add: normalize_timestamp_def parse_datetime_def timestamp_text_def
      example_runtime example_dates_def normalize_wrapping_quotes_def ascii_def
      strip_def lstrip_def rstrip_def isspace_def has_wrapping_pair_def QUOTE_PAIRS_def
      endswith_def ascii_upper_def to_utc_def)

lemma example_good_record_time:
  "f_contains F = [] \<Longrightarrow> f_not_contains F = [] \<Longrightarrow> f_wanted F = [] \<Longrightarrow> f_fields F = None \<Longrightarrow>
   process_record example_env F good_record =
     (if in_time_range F 63699091200000000 then Emit (PDict []) else Skip)"
  by (simp add: process_record_def good_record_def dict_get_def ascii_def keywords_pass_def
      event_id_pass_def emit_def
      example_runtime example_payloads_def example_dates_def get_dotted_def event_time_def
      normalize_timestamp_def parse_datetime_def timestamp_text_def normalize_wrapping_quotes_def
      strip_def lstrip_def rstrip_def isspace_def has_wrapping_pair_def QUOTE_PAIRS_def
      endswith_def ascii_upper_def ascii_lower_def to_utc_def)

lemma example_build_filter:
  "build_filter example_env start end' PNone PNone PNone PNone PNone PNone =
     (case time_bounds example_env start end' of
        Inl e \<Rightarrow> Inl e
      | Inr (s, e) \<Rightarrow> Inr (Some ((unconstrained 2 3)\<lparr>f_start := s, f_end := e\<rparr>)))"
  by (simp add: build_filter_def normalize_int_def example_limits normalize_str_list_None
      normalize_int_list_None remove_overlap_def unconstrained_def
      split: sum.splits prod.splits)


section \<open>The output without constraints\<close>






section \<open>The output under time bounds\<close>

lemma iter_events_output:
  assumes "fs (normalize_path evtx_path) = Evtx src"
    and "build_filter E start end' results_limit scan_limit event_ids contains not_contains
           fields' = Inr (Some F)"
  shows "iter_events_from_evtx E fs evtx_path start end' results_limit scan_limit event_ids
           contains not_contains fields' =
         Inr (spec_range_output E F
               (\<lambda>t. (case f_start F of None \<Rightarrow> True | Some lo \<Rightarrow> lo \<le> t) \<and>
                    (case f_end F of None \<Rightarrow> True | Some hi \<Rightarrow> t \<le> hi))
               (produced src))"
proof -
  have "iter_events_from_evtx E fs evtx_path start end' results_limit scan_limit event_ids
           contains not_contains fields' = Inr (fst (scan_loop E F 0 0 src))"
    using assms by (simp add: iter_events_from_evtx_def)
  moreover have "yielded E F =
      (\<lambda>r. case spec_event_time E r of
              None \<Rightarrow> None
            | Some t \<Rightarrow>
                (if (case f_start F of None \<Rightarrow> True | Some lo \<Rightarrow> lo \<le> t) \<and>
                    (case f_end F of None \<Rightarrow> True | Some hi \<Rightarrow> t \<le> hi)
                 then yielded E (without_bounds F) r else None))"
    by (rule ext) (rule yielded_in_range)
  ultimately show ?thesis
    using scan_loop_output [of E F 0 0 src] by (simp add: spec_range_output_def)
qed

lemma build_filter_without_bounds:
  "build_filter E start end' results_limit scan_limit event_ids contains not_contains fields'
     = Inr (Some F) \<Longrightarrow>
   build_filter E PNone PNone results_limit scan_limit event_ids contains not_contains fields'
     = Inr (Some (without_bounds F))"
proof -
  assume b: "build_filter E start end' results_limit scan_limit event_ids contains not_contains
    fields' = Inr (Some F)"
  have tb: "time_bounds E PNone PNone = Inr (None, None)"
    by (simp add: time_bounds_def)
  show ?thesis
    using b
    by (auto simp: build_filter_def tb without_bounds_def
        split: option.splits sum.splits prod.splits if_splits)
qed

lemma time_bounds_both:
  assumes "start \<noteq> PNone" and "end' \<noteq> PNone"
    and "normalize_timestamp E start (Some (utc_now E)) = Inr (Some a)"
    and "normalize_timestamp E end' (Some (utc_now E)) = Inr (Some b)"
  shows "time_bounds E start end' = Inr (Some (min a b), Some (max a b))"
  using assms by (auto simp: time_bounds_def min_def max_def)

lemma time_bounds_given:
  assumes "start \<noteq> PNone" and "end' \<noteq> PNone" and "time_bounds E start end' = Inr (s, e)"
  shows "\<exists>a b. normalize_timestamp E start (Some (utc_now E)) = Inr (Some a) \<and>
               normalize_timestamp E end' (Some (utc_now E)) = Inr (Some b)"
proof -
  obtain a where a: "normalize_timestamp E start (Some (utc_now E)) = Inr a"
    using assms by (cases "normalize_timestamp E start (Some (utc_now E))")
      (auto simp: time_bounds_def)
  obtain b where b: "normalize_timestamp E end' (Some (utc_now E)) = Inr b"
    using assms a by (cases "normalize_timestamp E end' (Some (utc_now E))")
      (auto simp: time_bounds_def)
  obtain x y where "a = Some x" "b = Some y"
    using normalize_timestamp_fallback [OF a] normalize_timestamp_fallback [OF b] by auto
  then show ?thesis using a b by simp
qed


section \<open>More example records\<close>

lemma example_late_record_time:
  "f_contains F = [] \<Longrightarrow> f_not_contains F = [] \<Longrightarrow> f_wanted F = [] \<Longrightarrow> f_fields F = None \<Longrightarrow>
   process_record example_env F late_record =
     (if in_time_range F 64029052800000000 then Emit (PList [PInt 7]) else Skip)"
  by (simp add: process_record_def late_record_def dict_get_def ascii_def keywords_pass_def
      event_id_pass_def emit_def latin1_isdigit_def
      example_env_def example_payloads_def example_dates_def get_dotted_def event_time_def
      normalize_timestamp_def parse_datetime_def timestamp_text_def normalize_wrapping_quotes_def
      strip_def lstrip_def rstrip_def isspace_def has_wrapping_pair_def QUOTE_PAIRS_def
      endswith_def ascii_upper_def ascii_lower_def to_utc_def)



lemma example_parseable:
  "spec_parseable example_env good_record = Some (PDict [])"
  "spec_parseable example_env bad_record = None"
  "spec_parseable example_env late_record = Some (PList [PInt 7])"
  "spec_parseable example_env overflow_record = Some (PDict [])"
  "spec_parseable example_env timeless_record = Some (PDict [])"
  by (simp_all add: spec_parseable_def good_record_def bad_record_def late_record_def
      overflow_record_def timeless_record_def dict_get_def ascii_def example_runtime
      example_payloads_def)

lemma example_record_timestamp:
  "dict_get good_record (ascii ''timestamp'') = PStr (ascii ''2019-07-19'')"
  "dict_get late_record (ascii ''timestamp'') = PStr (ascii ''2030-01-01'')"
  "dict_get overflow_record (ascii ''timestamp'') = PStr (ascii ''0001-01-01T00:00:00+01:00'')"
  "dict_get timeless_record (ascii ''timestamp'') = PNone"
  by (simp_all add: good_record_def late_record_def overflow_record_def timeless_record_def
      dict_get_def ascii_def)

lemma example_system_time:
  "get_dotted example_env (PDict [])
     (ascii ''Event.System.TimeCreated.#attributes.SystemTime'') = Inr PNone"
  "get_dotted example_env (PList [PInt 7])
     (ascii ''Event.System.TimeCreated.#attributes.SystemTime'') = Inr PNone"
  by (simp_all add: get_dotted_def ascii_def example_env_def latin1_isdigit_def)

lemma example_overflow:
  "normalize_timestamp example_env (PStr (ascii ''0001-01-01T00:00:00+01:00'')) fb =
     Inl OverflowError"
  by (simp add: normalize_timestamp_def parse_datetime_def timestamp_text_def
      example_runtime example_dates_def normalize_wrapping_quotes_def ascii_def
      strip_def lstrip_def rstrip_def isspace_def has_wrapping_pair_def QUOTE_PAIRS_def
      endswith_def ascii_upper_def to_utc_def)

lemma normalize_timestamp_None: "normalize_timestamp E PNone fb = Inr fb"
  by (simp add: normalize_timestamp_def)

lemma example_event_time:
  "spec_event_time example_env good_record = Some 63699091200000000"
  "spec_event_time example_env bad_record = None"
  "spec_event_time example_env late_record = Some 64029052800000000"
  "spec_event_time example_env overflow_record = None"
  "spec_event_time example_env timeless_record = None"
  by (simp_all add: spec_event_time_def example_parseable example_system_time event_time_def
      example_record_timestamp example_timestamps example_overflow normalize_timestamp_None)

lemma unconstrained_fields:
  "f_contains (unconstrained lim cap) = []" "f_not_contains (unconstrained lim cap) = []"
  "f_wanted (unconstrained lim cap) = []" "f_fields (unconstrained lim cap) = None"
  "f_start (unconstrained lim cap) = None" "f_end (unconstrained lim cap) = None"
  by (simp_all add: unconstrained_def)





lemma example_new_year:
  "normalize_timestamp example_env (PStr (ascii ''2020-01-01'')) fb = Inr (Some 63713433600000000)"
  by (simp add: normalize_timestamp_def parse_datetime_def timestamp_text_def
      example_runtime example_dates_def normalize_wrapping_quotes_def ascii_def
      strip_def lstrip_def rstrip_def isspace_def has_wrapping_pair_def QUOTE_PAIRS_def
      endswith_def ascii_upper_def to_utc_def)

lemma example_yielded:
  assumes "f_contains F = []" and "f_not_contains F = []" and "f_wanted F = []"
    and "f_fields F = None"
  shows "yielded example_env F good_record =
           (if in_time_range F 63699091200000000 then Some (PDict []) else None)"
    and "yielded example_env F late_record =
           (if in_time_range F 64029052800000000 then Some (PList [PInt 7]) else None)"
    and "\<not> aborts example_env F good_record" and "\<not> aborts example_env F late_record"
  using assms
  by (simp_all add: yielded_def aborts_def example_good_record_time example_late_record_time)

lemma time_bounds_one:
  "normalize_timestamp E start (Some (utc_now E)) = Inr a \<Longrightarrow> start \<noteq> PNone \<Longrightarrow>
   time_bounds E start PNone = Inr (a, None)"
  "normalize_timestamp E end' (Some (utc_now E)) = Inr b \<Longrightarrow> end' \<noteq> PNone \<Longrightarrow>
   time_bounds E PNone end' = Inr (None, b)"
  by (auto simp: time_bounds_def split: option.splits)

section \<open>The claims\<close>

text \<open>
  C8, as the specification has it: the default-aware positive-integer normalizer rejects
  every boolean, so that its result is null and not 1 or 0. The code tests
  \<open>isinstance(value, int)\<close>, which holds of a boolean, and does not exclude \<open>bool\<close> as
  \<open>normalize_int_list\<close> does: \<open>True\<close> passes \<open>value > 0\<close> and is returned. This theorem
  evaluates \<open>normalize_int\<close> at \<open>True\<close>, for any default: the result is \<open>True\<close>, the
  integer 1.
\<close>

theorem normalize_int_accepts_true:
  "normalize_int E (PBool True) dflt = Some 1"
  by (simp add: normalize_int_def)

text \<open>
  C9, amended: a string that carries no wrapping delimiter pair once its surrounding
  whitespace is trimmed comes back trimmed, and unchanged when it has no surrounding
  whitespace; a string wrapped in layers of delimiter pairs of any mix normalizes to what
  its core normalizes to, which is the core itself when the core is trimmed and unquoted.
\<close>

theorem quotes_trimmed_and_unwrapped:
  "(\<not> has_wrapping_pair (strip s) \<longrightarrow> normalize_wrapping_quotes s = strip s) \<and>
   (strip s = s \<and> \<not> has_wrapping_pair s \<longrightarrow> normalize_wrapping_quotes s = s) \<and>
   normalize_wrapping_quotes (wrap_layers qs s) = normalize_wrapping_quotes s \<and>
   (strip s = s \<and> \<not> has_wrapping_pair s \<longrightarrow> normalize_wrapping_quotes (wrap_layers qs s) = s)"
  using unwrap_unquoted [of s] unwrap_layers [of qs s] by auto

theorem quotes_trimmed_and_unwrapped_witness:
  "wrap_layers [34, 8220, 96] (ascii ''a b'') = [34, 8220, 96] @ ascii ''a b'' @ [96, 8221, 34] \<and>
   normalize_wrapping_quotes (wrap_layers [34, 8220, 96] (ascii ''a b'')) = ascii ''a b'' \<and>
   normalize_wrapping_quotes (ascii ''a b'') = ascii ''a b''"
proof -
  have s: "strip (ascii ''a b'') = ascii ''a b''"
    by (simp add: ascii_def strip_def lstrip_def rstrip_def isspace_def)
  have u: "\<not> has_wrapping_pair (ascii ''a b'')"
    by (simp add: ascii_def has_wrapping_pair_def QUOTE_PAIRS_def)
  have w: "wrap_layers [34, 8220, 96] (ascii ''a b'') =
           [34, 8220, 96] @ ascii ''a b'' @ [96, 8221, 34]"
    by (simp add: QUOTE_PAIRS_def)
  show ?thesis
    using quotes_trimmed_and_unwrapped [of "ascii ''a b''" "[34, 8220, 96]"] s u w by simp
qed

text \<open>
  C9 as stated fails: the string of a space and the letter a carries no wrapping pair,
  and the normalizer returns the letter alone.
\<close>

theorem unquoted_not_unchanged_counterexample:
  "\<not> has_wrapping_pair (ascii '' a'') \<and> \<not> has_wrapping_pair (strip (ascii '' a'')) \<and>
   normalize_wrapping_quotes (ascii '' a'') = ascii ''a'' \<and>
   normalize_wrapping_quotes (ascii '' a'') \<noteq> ascii '' a''"
proof -
  have s: "strip (ascii '' a'') = ascii ''a''"
    by (simp add: ascii_def strip_def lstrip_def rstrip_def isspace_def)
  have u: "\<not> has_wrapping_pair (ascii ''a'')" "\<not> has_wrapping_pair (ascii '' a'')"
    by (simp_all add: ascii_def has_wrapping_pair_def QUOTE_PAIRS_def)
  have n: "normalize_wrapping_quotes (ascii '' a'') = ascii ''a''"
    using unwrap_unquoted [of "ascii '' a''"] s u by simp
  show ?thesis using s u n by (simp add: ascii_def)
qed


text \<open>
  C2: whatever the stream of records and the filter, the loop started from zero counters
  examines at most \<open>cap\<close> records and yields at most \<open>lim\<close> values (none where a limit
  is not positive), and \<open>returned\<close> counts the values yielded. At a record, when
  \<open>scanned\<close> has reached \<open>cap\<close> or \<open>returned\<close> has reached \<open>lim\<close>, the loop stops with
  the counters as they are and nothing yielded: both tests come before any work on the
  record. The records after the first \<open>cap\<close> do not influence the result.
\<close>

theorem scan_and_result_limits:
  assumes "scan_loop E F 0 0 src = (out, scanned, returned)"
  shows "scanned \<le> max 0 (f_cap F) \<and> int (length out) \<le> max 0 (f_lim F) \<and>
         returned = int (length out) \<and>
         (\<forall>sc rt rest. f_cap F \<le> sc \<or> f_lim F \<le> rt \<longrightarrow>
            scan_loop E F sc rt rest = ([], sc, rt)) \<and>
         scan_loop E F 0 0 src =
           scan_loop E F 0 0 (records_then (take (nat (f_cap F)) (produced src)) Exhausted)"
proof -
  have "returned = int (length out)" "scanned \<le> max 0 (f_cap F)" "returned \<le> max 0 (f_lim F)"
    using scan_loop_counters [OF assms] by simp_all
  moreover have "\<forall>sc rt rest. f_cap F \<le> sc \<or> f_lim F \<le> rt \<longrightarrow>
      scan_loop E F sc rt rest = ([], sc, rt)"
    using scan_loop_stop by blast
  moreover have "scan_loop E F 0 0 src =
      scan_loop E F 0 0 (records_then (take (nat (f_cap F)) (produced src)) Exhausted)"
    using scan_loop_prefix [of E F 0 0 src] by simp
  ultimately show ?thesis by simp
qed

theorem scan_and_result_limits_witness:
  "scan_loop example_env (unconstrained 2 3) 0 0
     (records_then [good_record, bad_record, good_record, good_record] Exhausted) =
     ([PDict [], PDict []], 3, 2) \<and>
   scan_loop example_env (unconstrained 2 3) 0 0
     (records_then [bad_record, bad_record, bad_record, good_record] Exhausted) = ([], 3, 0) \<and>
   scan_loop example_env (unconstrained 2 3) 3 0 (Next good_record Exhausted) = ([], 3, 0)"
proof -
  have a: "scan_loop example_env (unconstrained 2 3) 0 0
     (records_then [good_record, bad_record, good_record, good_record] Exhausted) =
     ([PDict [], PDict []], 3, 2)"
    by (simp add: example_good_record example_bad_record unconstrained_limits)
  have b: "scan_loop example_env (unconstrained 2 3) 0 0
     (records_then [bad_record, bad_record, bad_record, good_record] Exhausted) = ([], 3, 0)"
    by (simp add: example_good_record example_bad_record unconstrained_limits)
  show ?thesis
    using scan_and_result_limits [OF a] a b by (simp add: unconstrained_limits)
qed


text \<open>
  C6: a decoder that raises after some records gives the filter exactly the result of a
  decoder that is exhausted after the same records. When the arguments normalize, that
  result is the list of values the loop yields on those records: no exception comes out
  of the loop. (The only exceptions of the call are those of the argument normalizers,
  raised before the first record is read.)
\<close>

theorem decoder_failure_is_silent:
  assumes "fs_crash (normalize_path evtx_path) = Evtx (records_then records Crash)"
    and "fs_prefix (normalize_path evtx_path) = Evtx (records_then records Exhausted)"
  shows "iter_events_from_evtx E fs_crash evtx_path start end' results_limit scan_limit
           event_ids contains not_contains fields' =
         iter_events_from_evtx E fs_prefix evtx_path start end' results_limit scan_limit
           event_ids contains not_contains fields' \<and>
         iter_events_from_evtx E fs_crash evtx_path start end' results_limit scan_limit
           event_ids contains not_contains fields' =
         (case build_filter E start end' results_limit scan_limit
                 event_ids contains not_contains fields' of
            Inl e \<Rightarrow> Inl e
          | Inr None \<Rightarrow> Inr []
          | Inr (Some F) \<Rightarrow> Inr (fst (scan_loop E F 0 0 (records_then records Exhausted))))"
proof -
  show ?thesis
    using assms
    by (simp add: iter_events_from_evtx_def scan_loop_crash split: sum.splits option.splits)
qed

theorem decoder_failure_is_silent_witness:
  "iter_events_from_evtx example_env
     (example_fs (records_then [good_record, bad_record] Crash)) (PathStr (ascii ''a.evtx''))
     PNone PNone PNone PNone PNone PNone PNone PNone =
   iter_events_from_evtx example_env
     (example_fs (records_then [good_record, bad_record] Exhausted)) (PathStr (ascii ''a.evtx''))
     PNone PNone PNone PNone PNone PNone PNone PNone \<and>
   iter_events_from_evtx example_env
     (example_fs (records_then [good_record, bad_record] Crash)) (PathStr (ascii ''a.evtx''))
     PNone PNone PNone PNone PNone PNone PNone PNone = Inr [PDict []]"
proof -
  have c: "example_fs (records_then [good_record, bad_record] Crash)
             (normalize_path (PathStr (ascii ''a.evtx''))) =
           Evtx (records_then [good_record, bad_record] Crash)"
    and x: "example_fs (records_then [good_record, bad_record] Exhausted)
             (normalize_path (PathStr (ascii ''a.evtx''))) =
           Evtx (records_then [good_record, bad_record] Exhausted)"
    by (simp_all add: example_path example_fs_def)
  have n: "normalize_int example_env PNone (RESULTS_LIMIT example_env) = Some 2"
    "normalize_int example_env PNone (SCAN_LIMIT example_env) = Some 3"
    by (simp_all add: normalize_int_def example_limits)
  have b: "build_filter example_env PNone PNone PNone PNone PNone PNone PNone PNone =
           Inr (Some (unconstrained 2 3))"
    using build_filter_unconstrained [OF n] by (simp add: example_limits)
  note t = decoder_failure_is_silent
      [where fs_crash = "example_fs (records_then [good_record, bad_record] Crash)"
         and fs_prefix = "example_fs (records_then [good_record, bad_record] Exhausted)"
         and evtx_path = "PathStr (ascii ''a.evtx'')"
         and records = "[good_record, bad_record]"
         and E = example_env, OF c x, of PNone PNone PNone PNone PNone PNone PNone PNone]
  show ?thesis
    using t by (auto simp add: b example_good_record example_bad_record unconstrained_limits)
qed




text \<open>
  C3, as the specification has it: for every event and path list, field projection
  returns a mapping with one entry per requested path, null where the path does not
  resolve. The code does not return on every input: in a list, \<open>_get_dotted\<close> passes a
  part that \<open>isdigit\<close> accepts to \<open>int\<close> with no guard, and \<open>isdigit\<close> accepts digits that
  \<open>int\<close> rejects. This theorem evaluates the projection of the path \<open>a\<close>, dot, superscript
  two (U+00B2) from an event whose key \<open>a\<close> holds a list: it raises \<open>ValueError\<close>.
\<close>

theorem projection_raises_on_superscript_digit:
  "str_isdigit example_env [178] \<and> int_of_str example_env [178] = None \<and>
   project_fields example_env (PDict [(ascii ''a'', PList [PInt 7])]) [ascii ''a'' @ [46, 178]]
     = Inl ValueError"
  by (simp add: project_fields_def project_one_def get_dotted_def ascii_def example_env_def
      latin1_isdigit_def ascii_int_def strip_def lstrip_def rstrip_def isspace_def)

text \<open>
  C4: let both keyword arguments normalize (lowercased, quote-stripped, deduplicated), to
  \<open>cs\<close> and \<open>ns\<close>. When \<open>cs\<close> and \<open>ns\<close> hold the same terms, the filter gives what the
  same call without keyword arguments gives. In general, the include list of the filter
  that is built is \<open>cs\<close> without the terms of \<open>ns\<close>, and its exclude list is \<open>ns\<close>
  without the terms of \<open>cs\<close>: a term of both leaves both.
\<close>

theorem overlapping_keywords_cancel:
  assumes "normalize_str_list E contains True = Inr cs"
    and "normalize_str_list E not_contains True = Inr ns"
  shows "(set cs = set ns \<longrightarrow>
          iter_events_from_evtx E fs evtx_path start end' results_limit scan_limit
            event_ids contains not_contains fields' =
          iter_events_from_evtx E fs evtx_path start end' results_limit scan_limit
            event_ids PNone PNone fields') \<and>
         (build_filter E start end' results_limit scan_limit event_ids contains not_contains
            fields' = Inr (Some F) \<longrightarrow>
          f_contains F = filter (\<lambda>s. s \<notin> set ns) cs \<and>
          f_not_contains F = filter (\<lambda>s. s \<notin> set cs) ns)"
proof -
  have same: "set cs = set ns \<Longrightarrow>
      build_filter E start end' results_limit scan_limit event_ids contains not_contains fields' =
      build_filter E start end' results_limit scan_limit event_ids PNone PNone fields'"
    using assms
    by (auto simp: build_filter_def normalize_str_list_None remove_overlap_eq
        split: option.splits sum.splits prod.splits)
  have "set cs = set ns \<longrightarrow>
          iter_events_from_evtx E fs evtx_path start end' results_limit scan_limit
            event_ids contains not_contains fields' =
          iter_events_from_evtx E fs evtx_path start end' results_limit scan_limit
            event_ids PNone PNone fields'"
  proof
    assume "set cs = set ns"
    from same [OF this] show "iter_events_from_evtx E fs evtx_path start end' results_limit
        scan_limit event_ids contains not_contains fields' =
      iter_events_from_evtx E fs evtx_path start end' results_limit scan_limit
        event_ids PNone PNone fields'"
      by (simp add: iter_events_from_evtx_def split: fs_entry.splits)
  qed
  moreover have "build_filter E start end' results_limit scan_limit event_ids contains
      not_contains fields' = Inr (Some F) \<longrightarrow>
          f_contains F = filter (\<lambda>s. s \<notin> set ns) cs \<and>
          f_not_contains F = filter (\<lambda>s. s \<notin> set cs) ns"
    using assms
    by (auto simp: build_filter_def remove_overlap_eq split: option.splits sum.splits prod.splits)
  ultimately show ?thesis by simp
qed

theorem overlapping_keywords_cancel_witness:
  "iter_events_from_evtx example_env (example_fs (Next good_record Exhausted))
     (PathStr (ascii ''a.evtx'')) PNone PNone PNone PNone PNone
     (PList [PStr (ascii ''Foo''), PStr (ascii ''bar'')]) (PStr (ascii ''bar, FOO'')) PNone =
   iter_events_from_evtx example_env (example_fs (Next good_record Exhausted))
     (PathStr (ascii ''a.evtx'')) PNone PNone PNone PNone PNone PNone PNone PNone"
proof -
  have s: "set [ascii ''foo'', ascii ''bar''] = set [ascii ''bar'', ascii ''foo'']"
    by auto
  show ?thesis
    using overlapping_keywords_cancel [OF example_contains example_not_contains,
        of "example_fs (Next good_record Exhausted)" "PathStr (ascii ''a.evtx'')"
        PNone PNone PNone PNone PNone PNone] s
    by blast
qed







text \<open>
  C5: when both time bounds are given, the filter called with the bounds in one order and
  in the other gives the same result, an exception of a normalizer included. When the
  filter is built, both arguments have normalized, to \<open>a\<close> and \<open>b\<close>; its start is the
  smaller and its end the larger of the two, whatever the order they were given in, and
  its other fields are those of the call without time bounds. The range test holds of
  exactly the times from the smaller to the larger, both included, and it decides what
  the call yields: of the records examined, those whose time lies in that closed range
  yield what they yield without time bounds, and the others yield nothing.
\<close>

theorem reversed_bounds_are_swapped:
  assumes "start \<noteq> PNone" and "end' \<noteq> PNone"
  shows "iter_events_from_evtx E fs evtx_path start end' results_limit scan_limit
           event_ids contains not_contains fields' =
         iter_events_from_evtx E fs evtx_path end' start results_limit scan_limit
           event_ids contains not_contains fields' \<and>
         (build_filter E start end' results_limit scan_limit event_ids contains not_contains
            fields' = Inr (Some F) \<longrightarrow>
          (\<exists>a b. normalize_timestamp E start (Some (utc_now E)) = Inr (Some a) \<and>
                 normalize_timestamp E end' (Some (utc_now E)) = Inr (Some b) \<and>
                 f_start F = Some (min a b) \<and> f_end F = Some (max a b) \<and>
                 build_filter E PNone PNone results_limit scan_limit event_ids contains
                   not_contains fields' = Inr (Some (without_bounds F)) \<and>
                 (\<forall>t. in_time_range F t = (min a b \<le> t \<and> t \<le> max a b)) \<and>
                 (\<forall>src. fs (normalize_path evtx_path) = Evtx src \<longrightarrow>
                    iter_events_from_evtx E fs evtx_path start end' results_limit scan_limit
                      event_ids contains not_contains fields' =
                    Inr (spec_range_output E F (\<lambda>t. min a b \<le> t \<and> t \<le> max a b)
                          (produced src)))))"
proof -
  have "iter_events_from_evtx E fs evtx_path start end' results_limit scan_limit
           event_ids contains not_contains fields' =
         iter_events_from_evtx E fs evtx_path end' start results_limit scan_limit
           event_ids contains not_contains fields'"
    by (rule iter_events_cong_filter, rule build_filter_cong_bounds)
      (rule time_bounds_swap [OF assms])
  moreover have "build_filter E start end' results_limit scan_limit event_ids contains
      not_contains fields' = Inr (Some F) \<longrightarrow>
          (\<exists>a b. normalize_timestamp E start (Some (utc_now E)) = Inr (Some a) \<and>
                 normalize_timestamp E end' (Some (utc_now E)) = Inr (Some b) \<and>
                 f_start F = Some (min a b) \<and> f_end F = Some (max a b) \<and>
                 build_filter E PNone PNone results_limit scan_limit event_ids contains
                   not_contains fields' = Inr (Some (without_bounds F)) \<and>
                 (\<forall>t. in_time_range F t = (min a b \<le> t \<and> t \<le> max a b)) \<and>
                 (\<forall>src. fs (normalize_path evtx_path) = Evtx src \<longrightarrow>
                    iter_events_from_evtx E fs evtx_path start end' results_limit scan_limit
                      event_ids contains not_contains fields' =
                    Inr (spec_range_output E F (\<lambda>t. min a b \<le> t \<and> t \<le> max a b)
                          (produced src))))"
  proof
    assume bf: "build_filter E start end' results_limit scan_limit event_ids contains
      not_contains fields' = Inr (Some F)"
    note tb = build_filter_bounds [OF bf]
    from time_bounds_given [OF assms tb]
    obtain a b where a: "normalize_timestamp E start (Some (utc_now E)) = Inr (Some a)"
      and b: "normalize_timestamp E end' (Some (utc_now E)) = Inr (Some b)" by auto
    have se: "f_start F = Some (min a b)" "f_end F = Some (max a b)"
      using time_bounds_both [OF assms a b] tb by simp_all
    have range: "\<forall>t. in_time_range F t = (min a b \<le> t \<and> t \<le> max a b)"
      using se by (auto simp: in_time_range_def)
    have out: "\<forall>src. fs (normalize_path evtx_path) = Evtx src \<longrightarrow>
                    iter_events_from_evtx E fs evtx_path start end' results_limit scan_limit
                      event_ids contains not_contains fields' =
                    Inr (spec_range_output E F (\<lambda>t. min a b \<le> t \<and> t \<le> max a b)
                          (produced src))"
    proof (intro allI impI)
      fix src assume "fs (normalize_path evtx_path) = Evtx src"
      from iter_events_output [where fs = fs and evtx_path = evtx_path and src = src, OF this bf]
      show "iter_events_from_evtx E fs evtx_path start end' results_limit scan_limit
                      event_ids contains not_contains fields' =
                    Inr (spec_range_output E F (\<lambda>t. min a b \<le> t \<and> t \<le> max a b)
                          (produced src))"
        by (simp add: se)
    qed
    show "\<exists>a b. normalize_timestamp E start (Some (utc_now E)) = Inr (Some a) \<and>
                 normalize_timestamp E end' (Some (utc_now E)) = Inr (Some b) \<and>
                 f_start F = Some (min a b) \<and> f_end F = Some (max a b) \<and>
                 build_filter E PNone PNone results_limit scan_limit event_ids contains
                   not_contains fields' = Inr (Some (without_bounds F)) \<and>
                 (\<forall>t. in_time_range F t = (min a b \<le> t \<and> t \<le> max a b)) \<and>
                 (\<forall>src. fs (normalize_path evtx_path) = Evtx src \<longrightarrow>
                    iter_events_from_evtx E fs evtx_path start end' results_limit scan_limit
                      event_ids contains not_contains fields' =
                    Inr (spec_range_output E F (\<lambda>t. min a b \<le> t \<and> t \<le> max a b)
                          (produced src)))"
      using a b se range out build_filter_without_bounds [OF bf] by blast
  qed
  ultimately show ?thesis by simp
qed

theorem reversed_bounds_are_swapped_witness:
  "iter_events_from_evtx example_env (example_fs (records_then [late_record, good_record] Exhausted))
     (PathStr (ascii ''a.evtx'')) (PStr (ascii ''2030-01-01'')) (PStr (ascii ''2019-07-19''))
     PNone PNone PNone PNone PNone PNone =
   iter_events_from_evtx example_env (example_fs (records_then [late_record, good_record] Exhausted))
     (PathStr (ascii ''a.evtx'')) (PStr (ascii ''2019-07-19'')) (PStr (ascii ''2030-01-01''))
     PNone PNone PNone PNone PNone PNone \<and>
   iter_events_from_evtx example_env (example_fs (records_then [late_record, good_record] Exhausted))
     (PathStr (ascii ''a.evtx'')) (PStr (ascii ''2030-01-01'')) (PStr (ascii ''2019-07-19''))
     PNone PNone PNone PNone PNone PNone = Inr [PList [PInt 7], PDict []] \<and>
   iter_events_from_evtx example_env (example_fs (records_then [late_record, good_record] Exhausted))
     (PathStr (ascii ''a.evtx'')) (PStr (ascii ''2020-01-01'')) (PStr (ascii ''2019-07-19''))
     PNone PNone PNone PNone PNone PNone = Inr [PDict []]"
proof -
  let ?src = "records_then [late_record, good_record] Exhausted"
  let ?p = "PathStr (ascii ''a.evtx'')"
  let ?F = "(unconstrained 2 3)\<lparr>f_start := Some 63699091200000000,
                                  f_end := Some 64029052800000000\<rparr>"
  let ?G = "(unconstrained 2 3)\<lparr>f_start := Some 63699091200000000,
                                  f_end := Some 63713433600000000\<rparr>"
  have ne: "PStr (ascii ''2030-01-01'') \<noteq> PNone" "PStr (ascii ''2019-07-19'') \<noteq> PNone"
    "PStr (ascii ''2020-01-01'') \<noteq> PNone"
    by simp_all
  have fs: "example_fs ?src (normalize_path ?p) = Evtx ?src"
    by (simp add: example_path example_fs_def)
  have bF: "build_filter example_env (PStr (ascii ''2030-01-01'')) (PStr (ascii ''2019-07-19''))
      PNone PNone PNone PNone PNone PNone = Inr (Some ?F)"
    by (simp add: example_build_filter time_bounds_def example_timestamps)
  have bG: "build_filter example_env (PStr (ascii ''2020-01-01'')) (PStr (ascii ''2019-07-19''))
      PNone PNone PNone PNone PNone PNone = Inr (Some ?G)"
    by (simp add: example_build_filter time_bounds_def example_timestamps example_new_year)
  have fF: "f_contains ?F = []" "f_not_contains ?F = []" "f_wanted ?F = []" "f_fields ?F = None"
    "f_lim ?F = 2" "f_cap ?F = 3"
    by (simp_all add: unconstrained_def)
  have fG: "f_contains ?G = []" "f_not_contains ?G = []" "f_wanted ?G = []" "f_fields ?G = None"
    "f_lim ?G = 2" "f_cap ?G = 3"
    by (simp_all add: unconstrained_def)
  have wF: "without_bounds ?F = unconstrained 2 3" "without_bounds ?G = unconstrained 2 3"
    by (simp_all add: without_bounds_def unconstrained_def)
  have yu: "yielded example_env (unconstrained 2 3) good_record = Some (PDict [])"
    "yielded example_env (unconstrained 2 3) late_record = Some (PList [PInt 7])"
    by (simp_all add: example_yielded unconstrained_fields unconstrained_pass)
  have oF: "spec_range_output example_env ?F
      (\<lambda>t. 63699091200000000 \<le> t \<and> t \<le> 64029052800000000) [late_record, good_record] =
      [PList [PInt 7], PDict []]"
    by (simp add: spec_range_output_def fF wF yu example_yielded(3,4) [OF fF(1-4)]
        example_event_time List.map_filter_simps)
  have oG: "spec_range_output example_env ?G
      (\<lambda>t. 63699091200000000 \<le> t \<and> t \<le> 63713433600000000) [late_record, good_record] =
      [PDict []]"
    by (simp add: spec_range_output_def fG wF yu example_yielded(3,4) [OF fG(1-4)]
        example_event_time List.map_filter_simps)
  note tF = reversed_bounds_are_swapped [OF ne(1,2), of example_env "example_fs ?src" ?p
      PNone PNone PNone PNone PNone PNone ?F]
  note tG = reversed_bounds_are_swapped [OF ne(3,2), of example_env "example_fs ?src" ?p
      PNone PNone PNone PNone PNone PNone ?G]
  have rF: "iter_events_from_evtx example_env (example_fs ?src) ?p (PStr (ascii ''2030-01-01''))
      (PStr (ascii ''2019-07-19'')) PNone PNone PNone PNone PNone PNone =
      Inr [PList [PInt 7], PDict []]"
    using tF bF fs oF by (auto simp: example_timestamps produced_records_then)
  have rG: "iter_events_from_evtx example_env (example_fs ?src) ?p (PStr (ascii ''2020-01-01''))
      (PStr (ascii ''2019-07-19'')) PNone PNone PNone PNone PNone PNone = Inr [PDict []]"
    using tG bG fs oG by (auto simp: example_timestamps example_new_year produced_records_then)
  show ?thesis using tF rF rG by simp
qed


text \<open>
  C10: a bound given as a string that no parser accepts is not dropped. It normalizes to
  the clock reading of the call, and the call gives what it gives with that reading as
  the bound, as start and as end. A filter built from such a start alone has the reading
  as its start and no end, and the call yields, of the records examined, exactly those
  whose time is not before the reading; built from such an end alone, it has the reading
  as its end and no start, and the call yields exactly those whose time is not after the
  reading. With the other bound given too, the two are ordered and the range test is
  that of the closed range between them. In each case the other fields of the filter are
  those of the call without time bounds, and a record in range yields what it yields
  without time bounds.
\<close>

theorem unparseable_bound_is_now:
  assumes "parse_datetime E (timestamp_text E s) = None"
  shows "normalize_timestamp E (PStr s) (Some (utc_now E)) = Inr (Some (utc_now E)) \<and>
         iter_events_from_evtx E fs evtx_path (PStr s) end' results_limit scan_limit
           event_ids contains not_contains fields' =
         iter_events_from_evtx E fs evtx_path (PDatetime (Aware (utc_now E) 0)) end'
           results_limit scan_limit event_ids contains not_contains fields' \<and>
         iter_events_from_evtx E fs evtx_path start (PStr s) results_limit scan_limit
           event_ids contains not_contains fields' =
         iter_events_from_evtx E fs evtx_path start (PDatetime (Aware (utc_now E) 0))
           results_limit scan_limit event_ids contains not_contains fields' \<and>
         (build_filter E (PStr s) PNone results_limit scan_limit event_ids contains
            not_contains fields' = Inr (Some F) \<longrightarrow>
          f_start F = Some (utc_now E) \<and> f_end F = None \<and>
          build_filter E PNone PNone results_limit scan_limit event_ids contains
            not_contains fields' = Inr (Some (without_bounds F)) \<and>
          (\<forall>src. fs (normalize_path evtx_path) = Evtx src \<longrightarrow>
             iter_events_from_evtx E fs evtx_path (PStr s) PNone results_limit scan_limit
               event_ids contains not_contains fields' =
             Inr (spec_range_output E F (\<lambda>t. utc_now E \<le> t) (produced src)))) \<and>
         (build_filter E PNone (PStr s) results_limit scan_limit event_ids contains
            not_contains fields' = Inr (Some F) \<longrightarrow>
          f_start F = None \<and> f_end F = Some (utc_now E) \<and>
          build_filter E PNone PNone results_limit scan_limit event_ids contains
            not_contains fields' = Inr (Some (without_bounds F)) \<and>
          (\<forall>src. fs (normalize_path evtx_path) = Evtx src \<longrightarrow>
             iter_events_from_evtx E fs evtx_path PNone (PStr s) results_limit scan_limit
               event_ids contains not_contains fields' =
             Inr (spec_range_output E F (\<lambda>t. t \<le> utc_now E) (produced src)))) \<and>
         (end' \<noteq> PNone \<and> normalize_timestamp E end' (Some (utc_now E)) = Inr (Some b) \<and>
          build_filter E (PStr s) end' results_limit scan_limit event_ids contains
            not_contains fields' = Inr (Some F) \<longrightarrow>
          f_start F = Some (min (utc_now E) b) \<and> f_end F = Some (max (utc_now E) b) \<and>
          (\<forall>src. fs (normalize_path evtx_path) = Evtx src \<longrightarrow>
             iter_events_from_evtx E fs evtx_path (PStr s) end' results_limit scan_limit
               event_ids contains not_contains fields' =
             Inr (spec_range_output E F
                   (\<lambda>t. min (utc_now E) b \<le> t \<and> t \<le> max (utc_now E) b) (produced src)))) \<and>
         (start \<noteq> PNone \<and> normalize_timestamp E start (Some (utc_now E)) = Inr (Some a) \<and>
          build_filter E start (PStr s) results_limit scan_limit event_ids contains
            not_contains fields' = Inr (Some F) \<longrightarrow>
          f_start F = Some (min a (utc_now E)) \<and> f_end F = Some (max a (utc_now E)) \<and>
          (\<forall>src. fs (normalize_path evtx_path) = Evtx src \<longrightarrow>
             iter_events_from_evtx E fs evtx_path start (PStr s) results_limit scan_limit
               event_ids contains not_contains fields' =
             Inr (spec_range_output E F
                   (\<lambda>t. min a (utc_now E) \<le> t \<and> t \<le> max a (utc_now E)) (produced src))))"
proof -
  have n: "normalize_timestamp E (PStr s) (Some (utc_now E)) = Inr (Some (utc_now E))"
    using assms by (simp add: normalize_timestamp_def)
  have d: "normalize_timestamp E (PDatetime (Aware (utc_now E) 0)) (Some (utc_now E)) =
           Inr (Some (utc_now E))"
    by (simp add: normalize_timestamp_def to_utc_def)
  have s: "time_bounds E (PStr s) end' = time_bounds E (PDatetime (Aware (utc_now E) 0)) end'"
    by (simp add: time_bounds_def n d)
  have e: "time_bounds E start (PStr s) = time_bounds E start (PDatetime (Aware (utc_now E) 0))"
    by (simp add: time_bounds_def n d split: sum.splits)
  have 1: "iter_events_from_evtx E fs evtx_path (PStr s) end' results_limit scan_limit
           event_ids contains not_contains fields' =
         iter_events_from_evtx E fs evtx_path (PDatetime (Aware (utc_now E) 0)) end'
           results_limit scan_limit event_ids contains not_contains fields'"
    by (rule iter_events_cong_filter, rule build_filter_cong_bounds) (rule s)
  have 2: "iter_events_from_evtx E fs evtx_path start (PStr s) results_limit scan_limit
           event_ids contains not_contains fields' =
         iter_events_from_evtx E fs evtx_path start (PDatetime (Aware (utc_now E) 0))
           results_limit scan_limit event_ids contains not_contains fields'"
    by (rule iter_events_cong_filter, rule build_filter_cong_bounds) (rule e)
  have out: "\<And>st en src. build_filter E st en results_limit scan_limit event_ids contains
            not_contains fields' = Inr (Some F) \<Longrightarrow> fs (normalize_path evtx_path) = Evtx src \<Longrightarrow>
      iter_events_from_evtx E fs evtx_path st en results_limit scan_limit
               event_ids contains not_contains fields' =
         Inr (spec_range_output E F
               (\<lambda>t. (case f_start F of None \<Rightarrow> True | Some lo \<Rightarrow> lo \<le> t) \<and>
                    (case f_end F of None \<Rightarrow> True | Some hi \<Rightarrow> t \<le> hi))
               (produced src))"
  proof -
    fix st en src
    assume bf: "build_filter E st en results_limit scan_limit event_ids contains
            not_contains fields' = Inr (Some F)"
      and f: "fs (normalize_path evtx_path) = Evtx src"
    show "iter_events_from_evtx E fs evtx_path st en results_limit scan_limit
               event_ids contains not_contains fields' =
         Inr (spec_range_output E F
               (\<lambda>t. (case f_start F of None \<Rightarrow> True | Some lo \<Rightarrow> lo \<le> t) \<and>
                    (case f_end F of None \<Rightarrow> True | Some hi \<Rightarrow> t \<le> hi))
               (produced src))"
      by (rule iter_events_output [where fs = fs and evtx_path = evtx_path and src = src,
            OF f bf])
  qed
  have 3: "build_filter E (PStr s) PNone results_limit scan_limit event_ids contains
            not_contains fields' = Inr (Some F) \<longrightarrow>
          f_start F = Some (utc_now E) \<and> f_end F = None \<and>
          build_filter E PNone PNone results_limit scan_limit event_ids contains
            not_contains fields' = Inr (Some (without_bounds F)) \<and>
          (\<forall>src. fs (normalize_path evtx_path) = Evtx src \<longrightarrow>
             iter_events_from_evtx E fs evtx_path (PStr s) PNone results_limit scan_limit
               event_ids contains not_contains fields' =
             Inr (spec_range_output E F (\<lambda>t. utc_now E \<le> t) (produced src)))"
  proof
    assume bf: "build_filter E (PStr s) PNone results_limit scan_limit event_ids contains
            not_contains fields' = Inr (Some F)"
    have se: "f_start F = Some (utc_now E)" "f_end F = None"
      using build_filter_bounds [OF bf] time_bounds_one(1) [OF n] by simp_all
    have "\<forall>src. fs (normalize_path evtx_path) = Evtx src \<longrightarrow>
             iter_events_from_evtx E fs evtx_path (PStr s) PNone results_limit scan_limit
               event_ids contains not_contains fields' =
             Inr (spec_range_output E F (\<lambda>t. utc_now E \<le> t) (produced src))"
      using out [OF bf] by (simp add: se)
    then show "f_start F = Some (utc_now E) \<and> f_end F = None \<and>
          build_filter E PNone PNone results_limit scan_limit event_ids contains
            not_contains fields' = Inr (Some (without_bounds F)) \<and>
          (\<forall>src. fs (normalize_path evtx_path) = Evtx src \<longrightarrow>
             iter_events_from_evtx E fs evtx_path (PStr s) PNone results_limit scan_limit
               event_ids contains not_contains fields' =
             Inr (spec_range_output E F (\<lambda>t. utc_now E \<le> t) (produced src)))"
      using se build_filter_without_bounds [OF bf] by simp
  qed
  have 4: "build_filter E PNone (PStr s) results_limit scan_limit event_ids contains
            not_contains fields' = Inr (Some F) \<longrightarrow>
          f_start F = None \<and> f_end F = Some (utc_now E) \<and>
          build_filter E PNone PNone results_limit scan_limit event_ids contains
            not_contains fields' = Inr (Some (without_bounds F)) \<and>
          (\<forall>src. fs (normalize_path evtx_path) = Evtx src \<longrightarrow>
             iter_events_from_evtx E fs evtx_path PNone (PStr s) results_limit scan_limit
               event_ids contains not_contains fields' =
             Inr (spec_range_output E F (\<lambda>t. t \<le> utc_now E) (produced src)))"
  proof
    assume bf: "build_filter E PNone (PStr s) results_limit scan_limit event_ids contains
            not_contains fields' = Inr (Some F)"
    have se: "f_start F = None" "f_end F = Some (utc_now E)"
      using build_filter_bounds [OF bf] time_bounds_one(2) [OF n] by simp_all
    have "\<forall>src. fs (normalize_path evtx_path) = Evtx src \<longrightarrow>
             iter_events_from_evtx E fs evtx_path PNone (PStr s) results_limit scan_limit
               event_ids contains not_contains fields' =
             Inr (spec_range_output E F (\<lambda>t. t \<le> utc_now E) (produced src))"
      using out [OF bf] by (simp add: se)
    then show "f_start F = None \<and> f_end F = Some (utc_now E) \<and>
          build_filter E PNone PNone results_limit scan_limit event_ids contains
            not_contains fields' = Inr (Some (without_bounds F)) \<and>
          (\<forall>src. fs (normalize_path evtx_path) = Evtx src \<longrightarrow>
             iter_events_from_evtx E fs evtx_path PNone (PStr s) results_limit scan_limit
               event_ids contains not_contains fields' =
             Inr (spec_range_output E F (\<lambda>t. t \<le> utc_now E) (produced src)))"
      using se build_filter_without_bounds [OF bf] by simp
  qed
  have 5: "end' \<noteq> PNone \<and> normalize_timestamp E end' (Some (utc_now E)) = Inr (Some b) \<and>
          build_filter E (PStr s) end' results_limit scan_limit event_ids contains
            not_contains fields' = Inr (Some F) \<longrightarrow>
          f_start F = Some (min (utc_now E) b) \<and> f_end F = Some (max (utc_now E) b) \<and>
          (\<forall>src. fs (normalize_path evtx_path) = Evtx src \<longrightarrow>
             iter_events_from_evtx E fs evtx_path (PStr s) end' results_limit scan_limit
               event_ids contains not_contains fields' =
             Inr (spec_range_output E F
                   (\<lambda>t. min (utc_now E) b \<le> t \<and> t \<le> max (utc_now E) b) (produced src)))"
  proof (intro impI, elim conjE)
    assume ne: "end' \<noteq> PNone"
      and nb: "normalize_timestamp E end' (Some (utc_now E)) = Inr (Some b)"
      and bf: "build_filter E (PStr s) end' results_limit scan_limit event_ids contains
            not_contains fields' = Inr (Some F)"
    have "PStr s \<noteq> PNone" by simp
    from time_bounds_both [OF this ne n nb] build_filter_bounds [OF bf]
    have se: "f_start F = Some (min (utc_now E) b)" "f_end F = Some (max (utc_now E) b)"
      by simp_all
    have "\<forall>src. fs (normalize_path evtx_path) = Evtx src \<longrightarrow>
             iter_events_from_evtx E fs evtx_path (PStr s) end' results_limit scan_limit
               event_ids contains not_contains fields' =
             Inr (spec_range_output E F
                   (\<lambda>t. min (utc_now E) b \<le> t \<and> t \<le> max (utc_now E) b) (produced src))"
      using out [OF bf] by (simp add: se)
    then show "f_start F = Some (min (utc_now E) b) \<and> f_end F = Some (max (utc_now E) b) \<and>
          (\<forall>src. fs (normalize_path evtx_path) = Evtx src \<longrightarrow>
             iter_events_from_evtx E fs evtx_path (PStr s) end' results_limit scan_limit
               event_ids contains not_contains fields' =
             Inr (spec_range_output E F
                   (\<lambda>t. min (utc_now E) b \<le> t \<and> t \<le> max (utc_now E) b) (produced src)))"
      using se by simp
  qed
  have 6: "start \<noteq> PNone \<and> normalize_timestamp E start (Some (utc_now E)) = Inr (Some a) \<and>
          build_filter E start (PStr s) results_limit scan_limit event_ids contains
            not_contains fields' = Inr (Some F) \<longrightarrow>
          f_start F = Some (min a (utc_now E)) \<and> f_end F = Some (max a (utc_now E)) \<and>
          (\<forall>src. fs (normalize_path evtx_path) = Evtx src \<longrightarrow>
             iter_events_from_evtx E fs evtx_path start (PStr s) results_limit scan_limit
               event_ids contains not_contains fields' =
             Inr (spec_range_output E F
                   (\<lambda>t. min a (utc_now E) \<le> t \<and> t \<le> max a (utc_now E)) (produced src)))"
  proof (intro impI, elim conjE)
    assume ne: "start \<noteq> PNone"
      and na: "normalize_timestamp E start (Some (utc_now E)) = Inr (Some a)"
      and bf: "build_filter E start (PStr s) results_limit scan_limit event_ids contains
            not_contains fields' = Inr (Some F)"
    have "PStr s \<noteq> PNone" by simp
    from time_bounds_both [OF ne this na n] build_filter_bounds [OF bf]
    have se: "f_start F = Some (min a (utc_now E))" "f_end F = Some (max a (utc_now E))"
      by simp_all
    have "\<forall>src. fs (normalize_path evtx_path) = Evtx src \<longrightarrow>
             iter_events_from_evtx E fs evtx_path start (PStr s) results_limit scan_limit
               event_ids contains not_contains fields' =
             Inr (spec_range_output E F
                   (\<lambda>t. min a (utc_now E) \<le> t \<and> t \<le> max a (utc_now E)) (produced src))"
      using out [OF bf] by (simp add: se)
    then show "f_start F = Some (min a (utc_now E)) \<and> f_end F = Some (max a (utc_now E)) \<and>
          (\<forall>src. fs (normalize_path evtx_path) = Evtx src \<longrightarrow>
             iter_events_from_evtx E fs evtx_path start (PStr s) results_limit scan_limit
               event_ids contains not_contains fields' =
             Inr (spec_range_output E F
                   (\<lambda>t. min a (utc_now E) \<le> t \<and> t \<le> max a (utc_now E)) (produced src)))"
      using se by simp
  qed
  show ?thesis
    by (intro conjI) (rule n, rule 1, rule 2, rule 3, rule 4, rule 5, rule 6)
qed

theorem unparseable_bound_is_now_witness:
  "iter_events_from_evtx example_env
     (example_fs (records_then [good_record, late_record] Exhausted))
     (PathStr (ascii ''a.evtx'')) (PStr (ascii ''yesterday'')) PNone
     PNone PNone PNone PNone PNone PNone = Inr [PList [PInt 7]] \<and>
   iter_events_from_evtx example_env
     (example_fs (records_then [good_record, late_record] Exhausted))
     (PathStr (ascii ''a.evtx'')) PNone (PStr (ascii ''yesterday''))
     PNone PNone PNone PNone PNone PNone = Inr [PDict []] \<and>
   iter_events_from_evtx example_env
     (example_fs (records_then [good_record, late_record] Exhausted))
     (PathStr (ascii ''a.evtx'')) (PStr (ascii ''yesterday'')) PNone
     PNone PNone PNone PNone PNone PNone =
   iter_events_from_evtx example_env
     (example_fs (records_then [good_record, late_record] Exhausted))
     (PathStr (ascii ''a.evtx'')) (PDatetime (Aware (utc_now example_env) 0)) PNone
     PNone PNone PNone PNone PNone PNone"
proof -
  let ?src = "records_then [good_record, late_record] Exhausted"
  let ?p = "PathStr (ascii ''a.evtx'')"
  let ?F = "(unconstrained 2 3)\<lparr>f_start := Some 63713433600000000, f_end := None\<rparr>"
  let ?G = "(unconstrained 2 3)\<lparr>f_start := None, f_end := Some 63713433600000000\<rparr>"
  have p: "parse_datetime example_env (timestamp_text example_env (ascii ''yesterday'')) = None"
    by (simp add: parse_datetime_def timestamp_text_def
      example_runtime example_dates_def normalize_wrapping_quotes_def ascii_def
      strip_def lstrip_def rstrip_def isspace_def has_wrapping_pair_def QUOTE_PAIRS_def
      endswith_def ascii_upper_def)
  have now: "utc_now example_env = 63713433600000000"
    by (simp add: example_runtime)
  have fs: "example_fs ?src (normalize_path ?p) = Evtx ?src"
    by (simp add: example_path example_fs_def)
  have bF: "build_filter example_env (PStr (ascii ''yesterday'')) PNone
      PNone PNone PNone PNone PNone PNone = Inr (Some ?F)"
    by (simp add: example_build_filter time_bounds_def example_timestamps now)
  have bG: "build_filter example_env PNone (PStr (ascii ''yesterday''))
      PNone PNone PNone PNone PNone PNone = Inr (Some ?G)"
    by (simp add: example_build_filter time_bounds_def example_timestamps now)
  have fF: "f_contains ?F = []" "f_not_contains ?F = []" "f_wanted ?F = []" "f_fields ?F = None"
    "f_lim ?F = 2" "f_cap ?F = 3"
    by (simp_all add: unconstrained_def)
  have fG: "f_contains ?G = []" "f_not_contains ?G = []" "f_wanted ?G = []" "f_fields ?G = None"
    "f_lim ?G = 2" "f_cap ?G = 3"
    by (simp_all add: unconstrained_def)
  have wF: "without_bounds ?F = unconstrained 2 3" "without_bounds ?G = unconstrained 2 3"
    by (simp_all add: without_bounds_def unconstrained_def)
  have yu: "yielded example_env (unconstrained 2 3) good_record = Some (PDict [])"
    "yielded example_env (unconstrained 2 3) late_record = Some (PList [PInt 7])"
    by (simp_all add: example_yielded unconstrained_fields unconstrained_pass)
  have oF: "spec_range_output example_env ?F (\<lambda>t. 63713433600000000 \<le> t)
      [good_record, late_record] = [PList [PInt 7]]"
    by (simp add: spec_range_output_def fF wF yu example_yielded(3,4) [OF fF(1-4)]
        example_event_time List.map_filter_simps)
  have oG: "spec_range_output example_env ?G (\<lambda>t. t \<le> 63713433600000000)
      [good_record, late_record] = [PDict []]"
    by (simp add: spec_range_output_def fG wF yu example_yielded(3,4) [OF fG(1-4)]
        example_event_time List.map_filter_simps)
  note tF = unparseable_bound_is_now [OF p, of "example_fs ?src" ?p PNone PNone PNone PNone
      PNone PNone PNone PNone ?F]
  note tG = unparseable_bound_is_now [OF p, of "example_fs ?src" ?p PNone PNone PNone PNone
      PNone PNone PNone PNone ?G]
  have rF: "iter_events_from_evtx example_env (example_fs ?src) ?p (PStr (ascii ''yesterday''))
      PNone PNone PNone PNone PNone PNone PNone = Inr [PList [PInt 7]]"
    using tF bF fs oF by (auto simp: now produced_records_then)
  have rG: "iter_events_from_evtx example_env (example_fs ?src) ?p PNone
      (PStr (ascii ''yesterday'')) PNone PNone PNone PNone PNone PNone = Inr [PDict []]"
    using tG bG fs oG by (auto simp: now produced_records_then)
  show ?thesis using tF rF rG by simp
qed
end
